theory Spec2Isabelle
  imports Complex_Main "HOL-Library.List_Lexorder" "HOL-Library.Char_ord"
begin

section \<open>Data model: applicant documents and the record store\<close>

text \<open>
  An applicant document of the MongoDB collection, with the fields the experiment code
  reads or writes. \<open>_id\<close>, \<open>createdAt\<close> and \<open>admissionsQuiz\<close> are on every
  document; \<open>inExperiment\<close> and \<open>group\<close> are added by the assignment and removed by the
  reset, so they are optional. Instants (\<open>datetime\<close>) are counted in seconds.
\<close>

type_synonym datetime = int

record applicant =
  ident :: nat
  createdAt :: datetime
  admissionsQuiz :: string
  inExperiment :: "bool option"
  group :: "string option"

type_synonym collection = "applicant list"

text \<open>A database holds its collections by name; a client gives a database for every name.\<close>

type_synonym database = "(string \<times> collection) list"
type_synonym mongo_client = "string \<Rightarrow> database"

text \<open>A Python \<open>dict\<close> with string keys and counts as values, in insertion order.\<close>

type_synonym counts = "(string \<times> nat) list"

definition dict_get :: "('k \<times> 'v) list \<Rightarrow> 'k \<Rightarrow> 'v \<Rightarrow> 'v" where
  "dict_get d k dflt = (case map_of d k of None \<Rightarrow> dflt | Some v \<Rightarrow> v)"

fun dict_set :: "('k \<times> 'v) list \<Rightarrow> 'k \<Rightarrow> 'v \<Rightarrow> ('k \<times> 'v) list" where
  "dict_set [] k v = [(k, v)]"
| "dict_set ((k', v') # d) k v = (if k' = k then (k, v) # d else (k', v') # dict_set d k v)"

datatype py_error =
    KeyError | IndexError | AttributeError | ValueError | ZeroDivisionError
  | TypeError | OverflowError
  | InvalidDateRange | InsufficientHistory | DegenerateContingencyTable

definition control_label :: string where
  "control_label = ''No email (control)''"

definition treatment_label :: string where
  "treatment_label = ''email (treatment)''"

definition one_day :: int where
  "one_day = 86400"

text \<open>
  The range of Python's \<open>datetime\<close>, in seconds from 1970-01-01: the first instant of
  the year 1 and the last second of the year 9999; the first instant of the year 1000;
  and the largest number of days of a \<open>timedelta\<close>.
\<close>

definition min_datetime :: datetime where
  "min_datetime = - 62135596800"

definition max_datetime :: datetime where
  "max_datetime = 253402300799"

definition year_1000 :: datetime where
  "year_1000 = - 30610224000"

definition max_timedelta_days :: int where
  "max_timedelta_days = 999999999"

section \<open>Collection operations used by the code\<close>

text \<open>
  \<open>update_many({"inExperiment": True}, {"$unset": {"inExperiment": "", "group": ""}})\<close>:
  every document whose \<open>inExperiment\<close> is \<open>True\<close> loses both fields. Such a document
  always changes, so it counts as matched and as modified.
\<close>

definition in_experiment :: "applicant \<Rightarrow> bool" where
  "in_experiment d = (inExperiment d = Some True)"

definition unset_fields :: "applicant \<Rightarrow> applicant" where
  "unset_fields d = d\<lparr>inExperiment := None, group := None\<rparr>"

fun update_many_unset :: "collection \<Rightarrow> collection \<times> nat \<times> nat" where
  "update_many_unset [] = ([], 0, 0)"
| "update_many_unset (d # ds) =
     (case update_many_unset ds of (ds', matched, modified) \<Rightarrow>
        if in_experiment d then (unset_fields d # ds', matched + 1, modified + 1)
        else (d # ds', matched, modified))"

text \<open>
  \<open>update_one({"_id": i}, {"$set": {"inExperiment": e, "group": g}})\<close>: the first document
  with that \<open>_id\<close> is updated; it counts as modified only when a field changed.
\<close>

definition set_fields :: "bool option \<Rightarrow> string option \<Rightarrow> applicant \<Rightarrow> applicant" where
  "set_fields e g d = d\<lparr>inExperiment := e, group := g\<rparr>"

fun update_one :: "collection \<Rightarrow> nat \<Rightarrow> bool option \<Rightarrow> string option
    \<Rightarrow> collection \<times> nat \<times> nat" where
  "update_one [] i e g = ([], 0, 0)"
| "update_one (d # ds) i e g =
     (if ident d = i
      then (set_fields e g d # ds, 1, if set_fields e g d = d then 0 else 1)
      else (case update_one ds i e g of (ds', matched, modified) \<Rightarrow> (d # ds', matched, modified)))"

text \<open>The query \<open>{"createdAt": {"$gte": start, "$lt": end}, "admissionsQuiz": "incomplete"}\<close>.\<close>

definition eligible :: "datetime \<Rightarrow> datetime \<Rightarrow> applicant \<Rightarrow> bool" where
  "eligible start_date end_date d =
     (start_date \<le> createdAt d \<and> createdAt d < end_date \<and> admissionsQuiz d = ''incomplete'')"

definition find_eligible :: "collection \<Rightarrow> datetime \<Rightarrow> datetime \<Rightarrow> applicant list" where
  "find_eligible coll start_date end_date = filter (eligible start_date end_date) coll"

definition count_documents :: "collection \<Rightarrow> (applicant \<Rightarrow> bool) \<Rightarrow> nat" where
  "count_documents coll q = length (filter q coll)"

section \<open>The pseudorandom generator\<close>

text \<open>
  The process-global generator of Python's \<open>random\<close> module is a state: the sequence of
  raw draws still to come. \<open>_randbelow n\<close> consumes a draw and returns a value below \<open>n\<close>;
  \<open>random.seed\<close> replaces the state by one that depends on the seed only, and is a
  parameter \<open>random_seed\<close> of the functions below. \<open>random.shuffle\<close> is the loop of the
  standard library:
  \<^verbatim>\<open>
  for i in reversed(range(1, len(x))):
      j = randbelow(i + 1)
      x[i], x[j] = x[j], x[i]
  \<close>
\<close>

type_synonym rng = "nat \<Rightarrow> nat"

definition randbelow :: "rng \<Rightarrow> nat \<Rightarrow> nat \<times> rng" where
  "randbelow g n = (g 0 mod n, \<lambda>k. g (Suc k))"

fun shuffle_loop :: "nat \<Rightarrow> rng \<Rightarrow> 'a list \<Rightarrow> 'a list \<times> rng" where
  "shuffle_loop 0 g xs = (xs, g)"
| "shuffle_loop (Suc i) g xs =
     (case randbelow g (Suc i + 1) of (j, g') \<Rightarrow>
        shuffle_loop i g' (xs[Suc i := xs ! j, j := xs ! Suc i]))"

definition shuffle :: "rng \<Rightarrow> 'a list \<Rightarrow> 'a list \<times> rng" where
  "shuffle g xs = shuffle_loop (length xs - 1) g xs"

section \<open>Experiment: assignment, counting, statistics\<close>

text \<open>The loop \<open>for user in all_users: update_one(...)\<close>, summing the two counters.\<close>

fun update_users :: "collection \<Rightarrow> applicant list \<Rightarrow> nat \<Rightarrow> nat \<Rightarrow> collection \<times> nat \<times> nat" where
  "update_users coll [] matched_count modified_count = (coll, matched_count, modified_count)"
| "update_users coll (user # users) matched_count modified_count =
     (case update_one coll (ident user) (inExperiment user) (group user) of
        (coll', matched, modified) \<Rightarrow>
          update_users coll' users (matched_count + matched) (modified_count + modified))"

definition assign_groups_for_date :: "collection \<Rightarrow> rng \<Rightarrow> datetime
    \<Rightarrow> counts \<times> collection \<times> rng" where
  "assign_groups_for_date coll g start_date =
     (let end_date = start_date + one_day;
          users = find_eligible coll start_date end_date;
          (shuffled, g') = shuffle g users;
          midpoint = length shuffled div 2;
          control_group = map (set_fields (Some True) (Some control_label)) (take midpoint shuffled);
          treatment_group = map (set_fields (Some True) (Some treatment_label)) (drop midpoint shuffled);
          all_users = control_group @ treatment_group;
          (coll', matched_count, modified_count) = update_users coll all_users 0 0
      in ([(''n'', matched_count), (''n_modified'', modified_count),
           (''control_size'', length control_group),
           (''treatment_size'', length treatment_group)], coll', g'))"

definition count_users_for_date :: "collection \<Rightarrow> datetime \<Rightarrow> counts" where
  "count_users_for_date coll start_date =
     (let end_date = start_date + one_day;
          count = count_documents coll (eligible start_date end_date)
      in [(''count'', count)])"

text \<open>
  Python's \<open>a / b\<close> on integers raises \<open>ZeroDivisionError\<close> when \<open>b\<close> is zero; the quotient
  is kept exact here (the rounding of the floating-point result is not modelled).
\<close>

definition py_truediv :: "nat \<Rightarrow> nat \<Rightarrow> py_error + rat" where
  "py_truediv a b = (if b = 0 then Inl ZeroDivisionError else Inr (of_nat a / of_nat b))"

record group_stats =
  total :: nat
  completed :: nat
  completion_rate :: rat

record experiment_stats =
  control_group :: group_stats
  treatment_group :: group_stats
  difference :: rat

definition in_group :: "string \<Rightarrow> applicant \<Rightarrow> bool" where
  "in_group g d = (inExperiment d = Some True \<and> group d = Some g)"

definition in_group_complete :: "string \<Rightarrow> applicant \<Rightarrow> bool" where
  "in_group_complete g d =
     (inExperiment d = Some True \<and> group d = Some g \<and> admissionsQuiz d = ''complete'')"

definition calculate_experiment_stats :: "collection \<Rightarrow> py_error + experiment_stats" where
  "calculate_experiment_stats coll =
     (let control_count = count_documents coll (in_group control_label);
          treatment_count = count_documents coll (in_group treatment_label);
          control_completed = count_documents coll (in_group_complete control_label);
          treatment_completed = count_documents coll (in_group_complete treatment_label)
      in case (if control_count > 0 then py_truediv control_completed control_count else Inr 0) of
           Inl e \<Rightarrow> Inl e
         | Inr control_rate \<Rightarrow>
             (case (if treatment_count > 0 then py_truediv treatment_completed treatment_count
                    else Inr 0) of
                Inl e \<Rightarrow> Inl e
              | Inr treatment_rate \<Rightarrow>
                  Inr \<lparr>control_group = \<lparr>total = control_count, completed = control_completed,
                                          completion_rate = control_rate\<rparr>,
                       treatment_group = \<lparr>total = treatment_count, completed = treatment_completed,
                                            completion_rate = treatment_rate\<rparr>,
                       difference = treatment_rate - control_rate\<rparr>))"

text \<open>
  The loop of \<open>run_experiment\<close>: one pass per day from \<open>current_date\<close> up to, not
  including, \<open>end_date\<close>. The day is handed over as its \<open>"%Y-%m-%d"\<close> string, which
  the callee parses back with \<open>strptime\<close> to the same midnight; the day's midnight stands
  for the string. For a year below 1000 \<open>strftime\<close> writes fewer than four digits of the
  year and \<open>strptime\<close> raises \<open>ValueError\<close> before the callee does anything else. The
  clock reading is a valid \<open>datetime\<close>, so adding a day to a date below \<open>end_date\<close>
  stays in range. \<open>Experiment.__init__\<close> never sets \<open>self.repo\<close>, so the branch
  calling \<open>self.repo.assign_to_groups\<close> is never taken. An exception ends the run with
  the collection and the generator as they are at that moment.
\<close>

type_synonym daily = "(datetime \<times> counts) list"

function run_days :: "bool \<Rightarrow> datetime \<Rightarrow> datetime \<Rightarrow> collection \<Rightarrow> rng \<Rightarrow> daily
    \<Rightarrow> (py_error + daily) \<times> collection \<times> rng" where
  "run_days assignment current_date end_date coll g daily_results =
     (if current_date < end_date then
        (if current_date < year_1000 then (Inl ValueError, coll, g)
         else if assignment then
           (case assign_groups_for_date coll g current_date of (result, coll', g') \<Rightarrow>
              run_days assignment (current_date + one_day) end_date coll' g'
                (dict_set daily_results current_date result))
         else
           run_days assignment (current_date + one_day) end_date coll g
             (dict_set daily_results current_date (count_users_for_date coll current_date)))
      else (Inr daily_results, coll, g))"
  by pat_completeness auto
termination
  by (relation "measure (\<lambda>(a, c, e, coll, g, d). nat (e - c))") (auto simp: one_day_def)

record run_result =
  days :: int
  total_assigned :: nat
  daily_results :: daily
  statistics :: experiment_stats

text \<open>\<open>datetime.now().replace(hour=0, minute=0, second=0, microsecond=0)\<close>.\<close>

definition midnight :: "datetime \<Rightarrow> datetime" where
  "midnight now = (now div one_day) * one_day"

text \<open>
  \<open>timedelta(days=days)\<close> raises \<open>OverflowError\<close> when the magnitude of \<open>days\<close> exceeds
  999999999, and \<open>end_date - timedelta(days=days)\<close> raises it when the result leaves the
  range of \<open>datetime\<close>.
\<close>

definition run_experiment :: "(int \<Rightarrow> rng) \<Rightarrow> datetime \<Rightarrow> collection \<Rightarrow> rng
    \<Rightarrow> int \<Rightarrow> bool \<Rightarrow> int \<Rightarrow> (py_error + run_result) \<times> collection \<times> rng" where
  "run_experiment random_seed now coll g n_days assignment seed =
     (let g0 = (if assignment then random_seed seed else g);
          end_date = midnight now
      in if max_timedelta_days < \<bar>n_days\<bar> then (Inl OverflowError, coll, g0)
         else
           (let start_date = end_date - n_days * one_day
            in if start_date < min_datetime \<or> max_datetime < start_date
               then (Inl OverflowError, coll, g0)
               else
                 (case run_days assignment start_date end_date coll g0 [] of
                    (Inl e, coll', g') \<Rightarrow> (Inl e, coll', g')
                  | (Inr daily, coll', g') \<Rightarrow>
                      (let total = sum_list (map (\<lambda>(date, day). dict_get day ''n'' 0) daily)
                       in (case calculate_experiment_stats coll' of
                             Inl e \<Rightarrow> Inl e
                           | Inr stats \<Rightarrow>
                               Inr \<lparr>days = n_days, total_assigned = total,
                                    daily_results = daily, statistics = stats\<rparr>,
                           coll', g')))))"

text \<open>
  The dates of a run are in range when none of these exceptions is raised: the start
  date lies in the range of \<open>datetime\<close>, and it is not before the year 1000 unless the
  loop is not entered.
\<close>

definition start_date_of :: "datetime \<Rightarrow> int \<Rightarrow> datetime" where
  "start_date_of now n_days = midnight now - n_days * one_day"

definition dates_in_range :: "datetime \<Rightarrow> int \<Rightarrow> bool" where
  "dates_in_range now n_days =
     (\<bar>n_days\<bar> \<le> max_timedelta_days
      \<and> min_datetime \<le> start_date_of now n_days
      \<and> start_date_of now n_days \<le> max_datetime
      \<and> (midnight now \<le> start_date_of now n_days \<or> year_1000 \<le> start_date_of now n_days))"

section \<open>Reset\<close>

text \<open>
  \<open>db[name]\<close> reads a collection by name (one that does not exist has no documents); an
  update writes to the collection of that name, if there is one.
\<close>

definition get_coll :: "database \<Rightarrow> string \<Rightarrow> collection" where
  "get_coll db name = dict_get db name []"

fun put_coll :: "database \<Rightarrow> string \<Rightarrow> collection \<Rightarrow> database" where
  "put_coll [] name c = []"
| "put_coll ((name', c') # db) name c =
     (if name' = name then (name, c) # db else (name', c') # put_coll db name c)"

text \<open>
  The object given to \<open>Reset\<close>: the client itself, or a \<open>Collection\<close> handle (the names of
  its database and of the collection).
\<close>

datatype client_ref = MongoClient | CollectionRef string string

type_synonym reset_results = "(string \<times> nat \<times> nat) list"

text \<open>The loop \<open>for collection_name in db.list_collection_names()\<close> of \<open>reset_database\<close>.\<close>

fun reset_collections :: "string list \<Rightarrow> database \<Rightarrow> reset_results \<Rightarrow> database \<times> reset_results" where
  "reset_collections [] db results = (db, results)"
| "reset_collections (collection_name # names) db results =
     (case update_many_unset (get_coll db collection_name) of (c', matched, modified) \<Rightarrow>
        reset_collections names (put_coll db collection_name c')
          (dict_set results collection_name (matched, modified)))"

fun reset_database :: "mongo_client \<Rightarrow> client_ref \<Rightarrow> string \<Rightarrow> mongo_client \<times> reset_results" where
  "reset_database store (CollectionRef dbn cn) db_name =
     (case update_many_unset (get_coll (store dbn) cn) of (c', matched, modified) \<Rightarrow>
        (store(dbn := put_coll (store dbn) cn c'), [(cn, (matched, modified))]))"
| "reset_database store MongoClient db_name =
     (case reset_collections (map fst (store db_name)) (store db_name) [] of (db', results) \<Rightarrow>
        (store(db_name := db'), results))"

text \<open>
  An \<open>Experiment\<close> keeps the names \<open>db\<close> and \<open>collection\<close> it was given, and a handle
  \<open>self.collection\<close>: \<open>client[db][collection]\<close> when it is built from a client (or from
  nothing), the repository's own collection when it is built from a repository.
  \<open>self.client\<close> is a client in both cases.
\<close>

record "experiment" =
  db_name :: string
  collection_name :: string
  handle_db :: string
  handle_collection :: string

datatype repo_arg = RepoNone | RepoClient | Repository string string

fun experiment_init :: "repo_arg \<Rightarrow> string \<Rightarrow> string \<Rightarrow> experiment" where
  "experiment_init (Repository rdb rcoll) db collection =
     \<lparr>db_name = db, collection_name = collection, handle_db = rdb, handle_collection = rcoll\<rparr>"
| "experiment_init repo db collection =
     \<lparr>db_name = db, collection_name = collection, handle_db = db, handle_collection = collection\<rparr>"

definition experiment_collection :: "mongo_client \<Rightarrow> experiment \<Rightarrow> collection" where
  "experiment_collection store e = get_coll (store (handle_db e)) (handle_collection e)"

definition reset_experiment :: "mongo_client \<Rightarrow> experiment \<Rightarrow> mongo_client \<times> nat \<times> nat" where
  "reset_experiment store e =
     (case reset_database store MongoClient (db_name e) of (store', result) \<Rightarrow>
        (store', dict_get result (collection_name e) (0, 0)))"

text \<open>The states of a record that the specification names.\<close>

definition not_in_experiment :: "applicant \<Rightarrow> bool" where
  "not_in_experiment d = (inExperiment d \<noteq> Some True \<and> group d = None)"

definition group_needs_in_experiment :: "applicant \<Rightarrow> bool" where
  "group_needs_in_experiment d = (group d = None \<or> inExperiment d = Some True)"

text \<open>What the reset does to one document.\<close>

definition reset_doc :: "applicant \<Rightarrow> applicant" where
  "reset_doc d = (if in_experiment d then unset_fields d else d)"

text \<open>A client with one database \<open>db\<close> holding one collection \<open>applicants\<close>.\<close>

definition single_store :: "collection \<Rightarrow> mongo_client" where
  "single_store c = (\<lambda>name. if name = ''db'' then [(''applicants'', c)] else [])"

section \<open>Contingency table\<close>

text \<open>
  The data frame of \<open>get_contingency_table\<close>, reduced to the two columns that are read
  from it: a row is the pair of \<open>group\<close> and \<open>admissionsQuiz\<close>. \<open>dropna\<close> removes the rows
  without a group. A frame built from no document has no column, and one built from
  documents that all lack \<open>group\<close> has no such column: reading the column raises
  \<open>KeyError\<close>. \<open>unique\<close> lists the values in the order of their first appearance, and
  \<open>crosstab\<close> sorts its row and column labels.
\<close>

type_synonym row = "string \<times> string"

fun dropna :: "collection \<Rightarrow> row list" where
  "dropna [] = []"
| "dropna (d # ds) =
     (case group d of None \<Rightarrow> dropna ds | Some g \<Rightarrow> (g, admissionsQuiz d) # dropna ds)"

fun unique :: "'a list \<Rightarrow> 'a list" where
  "unique [] = []"
| "unique (x # xs) = x # filter (\<lambda>y. y \<noteq> x) (unique xs)"

record crosstab =
  ct_index :: "string list"
  ct_columns :: "string list"
  ct_values :: "nat list list"

definition crosstab_of :: "row list \<Rightarrow> crosstab" where
  "crosstab_of rows =
     (let idx = sort (remdups (map fst rows));
          cols = sort (remdups (map snd rows))
      in \<lparr>ct_index = idx, ct_columns = cols,
          ct_values = map (\<lambda>g. map (\<lambda>s. count_list rows (g, s)) cols) idx\<rparr>)"

text \<open>The loop \<open>while len(new_rows) < 3\<close>, appending a copy of the first row of the frame.\<close>

function pad_rows :: "row \<Rightarrow> row list \<Rightarrow> row list" where
  "pad_rows first new_rows =
     (if length new_rows < 3
      then pad_rows first (new_rows @ [(fst first, ''completed'')])
      else new_rows)"
  by pat_completeness auto
termination
  by (relation "measure (\<lambda>(first, new_rows). 3 - length new_rows)") auto

definition synthetic_rows :: "row list \<Rightarrow> py_error + row list" where
  "synthetic_rows df =
     (let new_rows = map (\<lambda>group_type. (group_type, ''completed'')) (unique (map fst df))
      in if length new_rows < 3
         then (case df of [] \<Rightarrow> Inl IndexError | first # _ \<Rightarrow> Inr (pad_rows first new_rows))
         else Inr new_rows)"

definition get_contingency_table :: "collection \<Rightarrow> py_error + crosstab" where
  "get_contingency_table coll =
     (let result = filter in_experiment coll in
      if result = [] then Inl KeyError
      else if list_all (\<lambda>d. group d = None) result then Inl KeyError
      else
        (let df = dropna result in
         if ''completed'' \<notin> set (map snd df)
         then (case synthetic_rows df of
                 Inl e \<Rightarrow> Inl e
               | Inr new_rows \<Rightarrow> Inr (crosstab_of (df @ new_rows)))
         else Inr (crosstab_of df)))"

text \<open>
  \<open>run_chi_square\<close> hands the values of the table to \<open>Table2x2\<close>, which raises
  \<open>ValueError\<close> unless there are two rows of two cells. The result here is the table the
  test is computed on; the test statistic and the p-value are floating-point results of
  the library and are not modelled.
\<close>

definition run_chi_square :: "collection \<Rightarrow> py_error + nat list list" where
  "run_chi_square coll =
     (case get_contingency_table coll of
        Inl e \<Rightarrow> Inl e
      | Inr data \<Rightarrow>
          if length (ct_values data) = 2 \<and> list_all (\<lambda>r. length r = 2) (ct_values data)
          then Inr (ct_values data) else Inl ValueError)"

section \<open>Probability of collecting enough observations\<close>

text \<open>
  \<open>get_no_quiz_per_day\<close>: the number of documents with an incomplete quiz for each day
  that has one, in the order of the days. \<open>set_index("date")\<close> raises \<open>KeyError\<close> on the
  frame of an empty result, and \<open>squeeze\<close> turns a frame of one row and one column into a
  scalar.
\<close>

definition day_of :: "applicant \<Rightarrow> int" where
  "day_of d = createdAt d div one_day"

definition daily_incomplete_counts :: "collection \<Rightarrow> nat list" where
  "daily_incomplete_counts coll =
     (let dates = map day_of (filter (\<lambda>d. admissionsQuiz d = ''incomplete'') coll)
      in map (\<lambda>t. count_list dates t) (sort (remdups dates)))"

datatype squeezed = Scalar nat | Series "nat list"

definition get_no_quiz_per_day :: "collection \<Rightarrow> py_error + squeezed" where
  "get_no_quiz_per_day coll =
     (case daily_incomplete_counts coll of
        [] \<Rightarrow> Inl KeyError
      | [c] \<Rightarrow> Inr (Scalar c)
      | cs \<Rightarrow> Inr (Series cs))"

text \<open>
  A float is a real number or NaN (rounding and the infinities are not modelled).
  \<open>describe\<close> gives the mean and the sample standard deviation (divisor \<open>n - 1\<close>, NaN
  for fewer than two values); \<open>np.sqrt\<close> of a negative number is NaN;
  \<open>scipy.stats.norm.cdf\<close> is NaN unless the scale is a positive number. The two
  arguments are Python integers of any size: using one of magnitude \<open>2 ^ 1024\<close> or more
  in float arithmetic raises \<open>OverflowError\<close>, and \<open>np.sqrt\<close> and \<open>norm.cdf\<close> raise
  \<open>TypeError\<close> on one that does not fit 64 bits (signed or unsigned).
\<close>

datatype pyfloat = NaN | Fin real

fun fl_mul :: "pyfloat \<Rightarrow> pyfloat \<Rightarrow> pyfloat" where
  "fl_mul (Fin a) (Fin b) = Fin (a * b)"
| "fl_mul a b = NaN"

fun fl_sub :: "pyfloat \<Rightarrow> pyfloat \<Rightarrow> pyfloat" where
  "fl_sub (Fin a) (Fin b) = Fin (a - b)"
| "fl_sub a b = NaN"

definition fits_64 :: "int \<Rightarrow> bool" where
  "fits_64 x = (- (2 ^ 63) \<le> x \<and> x < 2 ^ 64)"

definition int_to_float :: "int \<Rightarrow> py_error + pyfloat" where
  "int_to_float x = (if 2 ^ 1024 \<le> \<bar>x\<bar> then Inl OverflowError else Inr (Fin (real_of_int x)))"

definition np_sqrt :: "int \<Rightarrow> py_error + pyfloat" where
  "np_sqrt x =
     (if \<not> fits_64 x then Inl TypeError
      else if x < 0 then Inr NaN else Inr (Fin (sqrt (real_of_int x))))"

definition series_mean :: "nat list \<Rightarrow> pyfloat" where
  "series_mean xs = (if xs = [] then NaN else Fin (real (sum_list xs) / real (length xs)))"

definition series_std :: "nat list \<Rightarrow> pyfloat" where
  "series_std xs =
     (if length xs < 2 then NaN
      else (let m = real (sum_list xs) / real (length xs)
            in Fin (sqrt (sum_list (map (\<lambda>x. (real x - m)\<^sup>2) xs) / real (length xs - 1)))))"

text \<open>The standard normal distribution function, as its power series at 0.\<close>

definition std_normal_cdf :: "real \<Rightarrow> real" where
  "std_normal_cdf x =
     1 / 2 + (1 / sqrt (2 * pi)) *
       (\<Sum>k. (- 1) ^ k * x ^ (2 * k + 1) / (fact k * 2 ^ k * real (2 * k + 1)))"

fun norm_cdf :: "int \<Rightarrow> pyfloat \<Rightarrow> pyfloat \<Rightarrow> pyfloat" where
  "norm_cdf x (Fin loc) (Fin scale) =
     (if scale > 0 then Fin (std_normal_cdf ((real_of_int x - loc) / scale)) else NaN)"
| "norm_cdf x loc scale = NaN"

text \<open>\<open>scipy.stats.norm.cdf(n_obs, loc=sum_mean, scale=sum_std)\<close> on the integer \<open>n_obs\<close>.\<close>

definition norm_cdf_call :: "int \<Rightarrow> pyfloat \<Rightarrow> pyfloat \<Rightarrow> py_error + pyfloat" where
  "norm_cdf_call x loc scale =
     (case int_to_float x of
        Inl e \<Rightarrow> Inl e
      | Inr _ \<Rightarrow> if \<not> fits_64 x then Inl TypeError else Inr (norm_cdf x loc scale))"

definition calculate_cdf_pct :: "collection \<Rightarrow> int \<Rightarrow> int \<Rightarrow> py_error + pyfloat" where
  "calculate_cdf_pct coll n_obs n_days =
     (case get_no_quiz_per_day coll of
        Inl e \<Rightarrow> Inl e
      | Inr (Scalar c) \<Rightarrow> Inl AttributeError
      | Inr (Series no_quiz) \<Rightarrow>
          (let mean = series_mean no_quiz;
               std = series_std no_quiz
           in case int_to_float n_days of
                Inl e \<Rightarrow> Inl e
              | Inr days_float \<Rightarrow>
                  (let sum_mean = fl_mul mean days_float
                   in case np_sqrt n_days of
                        Inl e \<Rightarrow> Inl e
                      | Inr sqrt_days \<Rightarrow>
                          (let sum_std = fl_mul std sqrt_days
                           in case norm_cdf_call n_obs sum_mean sum_std of
                                Inl e \<Rightarrow> Inl e
                              | Inr cdf_value \<Rightarrow>
                                  (let prob = fl_sub (Fin 1) cdf_value;
                                       pct = fl_mul prob (Fin 100)
                                   in Inr pct)))))"

text \<open>
  The effect of the update loop on one document: the fields of the user with the same
  \<open>_id\<close>, if there is one.
\<close>

definition relabel :: "applicant list \<Rightarrow> applicant \<Rightarrow> applicant" where
  "relabel us d = (case find (\<lambda>u. ident u = ident d) us of
      None \<Rightarrow> d | Some u \<Rightarrow> set_fields (inExperiment u) (group u) d)"

text \<open>
  The rows that \<open>synthetic_rows\<close> builds for a frame with at least one row, in closed
  form: one row per group in the order of first appearance, then copies of the first row
  of the frame up to three rows, all with the status \<open>completed\<close>.
\<close>

definition fabricated :: "row list \<Rightarrow> row list" where
  "fabricated df =
     map (\<lambda>group_type. (group_type, ''completed'')) (unique (map fst df))
     @ replicate (3 - length (unique (map fst df))) (fst (hd df), ''completed'')"

text \<open>
  A function that sets the two experiment fields of a document, or leaves it as it is,
  by a choice that depends on the other fields only.
\<close>

definition setter :: "(applicant \<Rightarrow> (bool option \<times> string option) option) \<Rightarrow> applicant \<Rightarrow> applicant" where
  "setter sel d = (case sel (unset_fields d) of None \<Rightarrow> d | Some (a, b) \<Rightarrow> set_fields a b d)"

section \<open>Sample data\<close>

text \<open>Small collections on which the theorems below are instantiated.\<close>

definition sample_day :: collection where
  "sample_day =
     [\<lparr>ident = 1, createdAt = 10, admissionsQuiz = ''incomplete'', inExperiment = None, group = None\<rparr>,
      \<lparr>ident = 2, createdAt = 20, admissionsQuiz = ''incomplete'', inExperiment = None, group = None\<rparr>,
      \<lparr>ident = 3, createdAt = 30, admissionsQuiz = ''complete'', inExperiment = None, group = None\<rparr>,
      \<lparr>ident = 4, createdAt = 40, admissionsQuiz = ''incomplete'', inExperiment = None, group = None\<rparr>]"

definition sample_pair :: collection where
  "sample_pair =
     [\<lparr>ident = 1, createdAt = 10, admissionsQuiz = ''incomplete'', inExperiment = None, group = None\<rparr>,
      \<lparr>ident = 2, createdAt = 20, admissionsQuiz = ''incomplete'', inExperiment = None, group = None\<rparr>]"

text \<open>A seeding function and a generator state for the instances.\<close>

definition sample_seed :: "int \<Rightarrow> rng" where
  "sample_seed s = (\<lambda>k. nat \<bar>s\<bar> + k)"

definition draws_one_then_zero :: rng where
  "draws_one_then_zero = (\<lambda>k. if k = 0 then 1 else 0)"

definition assigned_control :: applicant where
  "assigned_control =
     \<lparr>ident = 2, createdAt = 10, admissionsQuiz = ''incomplete'', inExperiment = Some True,
      group = Some control_label\<rparr>"

definition sample_experiment :: "experiment" where
  "sample_experiment = experiment_init RepoNone ''db'' ''applicants''"

text \<open>
  The experiment as \<open>StatsBuilder.run_experiment\<close> builds it from the default repository
  (database \<open>online_course\<close>, collection \<open>applicants\<close>), and a client whose only
  collection is that one.
\<close>

definition app_experiment :: "experiment" where
  "app_experiment =
     experiment_init (Repository ''online_course'' ''applicants'') ''wqu-abtest'' ''ds-applicants''"

definition app_store :: "collection \<Rightarrow> mongo_client" where
  "app_store c = (\<lambda>name. if name = ''online_course'' then [(''applicants'', c)] else [])"

definition sample_assigned :: collection where
  "sample_assigned =
     [\<lparr>ident = 1, createdAt = 10, admissionsQuiz = ''incomplete'', inExperiment = Some True,
       group = Some control_label\<rparr>,
      \<lparr>ident = 2, createdAt = 20, admissionsQuiz = ''incomplete'', inExperiment = Some True,
       group = Some treatment_label\<rparr>]"

definition sample_with_complete :: collection where
  "sample_with_complete =
     [\<lparr>ident = 1, createdAt = 10, admissionsQuiz = ''complete'', inExperiment = Some True,
       group = Some control_label\<rparr>,
      \<lparr>ident = 2, createdAt = 20, admissionsQuiz = ''incomplete'', inExperiment = Some True,
       group = Some treatment_label\<rparr>,
      \<lparr>ident = 3, createdAt = 20, admissionsQuiz = ''incomplete'', inExperiment = None,
       group = None\<rparr>]"

definition sample_two_days :: collection where
  "sample_two_days =
     [\<lparr>ident = 1, createdAt = 10, admissionsQuiz = ''incomplete'', inExperiment = None, group = None\<rparr>,
      \<lparr>ident = 2, createdAt = 90000, admissionsQuiz = ''incomplete'', inExperiment = None, group = None\<rparr>]"

section \<open>Auxiliary facts\<close>

declare run_days.simps [simp del]
declare pad_rows.simps [simp del]

lemma length_shuffle_loop: "length (fst (shuffle_loop i g xs)) = length xs"
  by (induction i arbitrary: g xs) (auto simp: randbelow_def)

lemma length_shuffle: "length (fst (shuffle g xs)) = length xs"
  by (simp add: shuffle_def length_shuffle_loop)

lemma set_dict_set: "set (dict_set d k v) \<subseteq> insert (k, v) (set d)"
  by (induction d) (auto split: if_splits)

lemma stats_Inr: "\<exists>s. calculate_experiment_stats coll = Inr s"
  by (simp add: calculate_experiment_stats_def py_truediv_def Let_def)

lemma run_days_count_only:
  "list_all (\<lambda>(date, day). day = count_users_for_date coll date) daily \<Longrightarrow>
   run_days False c e coll g daily = (res, coll', g') \<Longrightarrow>
   coll' = coll \<and> g' = g \<and> res \<noteq> Inl OverflowError
   \<and> (\<forall>daily'. res = Inr daily' \<longrightarrow>
         list_all (\<lambda>(date, day). day = count_users_for_date coll date) daily')"
proof (induction "False" c e coll g daily rule: run_days.induct)
  case (1 c e coll g daily)
  show ?case
  proof (cases "c < e")
    case False
    then show ?thesis using "1.prems" by (subst (asm) run_days.simps) auto
  next
    case True
    show ?thesis
    proof (cases "c < year_1000")
      case early: True
      then show ?thesis using True "1.prems"(2) by (subst (asm) run_days.simps) auto
    next
      case late: False
      let ?d = "dict_set daily c (count_users_for_date coll c)"
      have "list_all (\<lambda>(date, day). day = count_users_for_date coll date) ?d"
        using "1.prems"(1) set_dict_set[of daily c "count_users_for_date coll c"]
        by (auto simp: list_all_iff)
      moreover have "run_days False (c + one_day) e coll g ?d = (res, coll', g')"
        using "1.prems"(2) True late by (subst (asm) run_days.simps) simp
      ultimately show ?thesis using "1.hyps"(2)[OF True late] by simp
    qed
  qed
qed

lemma run_days_early:
  "c < e \<Longrightarrow> c < year_1000 \<Longrightarrow> run_days a c e coll g daily = (Inl ValueError, coll, g)"
  by (subst run_days.simps) simp

lemma run_days_count_returns:
  "year_1000 \<le> c \<Longrightarrow> \<exists>daily'. fst (run_days False c e coll g daily) = Inr daily'"
proof (induction "False" c e coll g daily rule: run_days.induct)
  case (1 c e coll g daily)
  show ?case
  proof (cases "c < e")
    case False
    then show ?thesis by (subst run_days.simps) simp
  next
    case True
    have late: "\<not> c < year_1000" using "1.prems" by simp
    have "year_1000 \<le> c + one_day" using "1.prems" by (simp add: one_day_def)
    then have "\<exists>daily'. fst (run_days False (c + one_day) e coll g
        (dict_set daily c (count_users_for_date coll c))) = Inr daily'"
      using "1.hyps"(2)[OF True late] by simp
    then show ?thesis using True late by (subst run_days.simps) simp
  qed
qed

lemma sum_list_no_key:
  "list_all (\<lambda>(date, day). day = count_users_for_date coll date) xs \<Longrightarrow>
   sum_list (map (\<lambda>(date, day). dict_get day ''n'' 0) xs) = (0::nat)"
  by (induction xs) (auto simp: count_users_for_date_def dict_get_def)

lemma shuffle_loop_set: "i < length xs \<Longrightarrow> set (fst (shuffle_loop i g xs)) = set xs"
proof (induction i arbitrary: g xs)
  case 0 then show ?case by simp
next
  case (Suc i)
  let ?j = "g 0 mod (Suc i + 1)"
  have "?j < Suc i + 1" by (rule mod_less_divisor) simp
  then have j: "?j < length xs" using Suc.prems by linarith
  have "set (xs[Suc i := xs ! ?j, ?j := xs ! Suc i]) = set xs"
    using Suc.prems j by simp
  moreover have "i < length (xs[Suc i := xs ! ?j, ?j := xs ! Suc i])" using Suc.prems by simp
  ultimately show ?case using Suc.IH[of "xs[Suc i := xs ! ?j, ?j := xs ! Suc i]" "\<lambda>k. g (Suc k)"]
    by (simp add: randbelow_def)
qed

lemma shuffle_set: "set (fst (shuffle g xs)) = set xs"
proof (cases xs)
  case Nil then show ?thesis by (simp add: shuffle_def)
next
  case (Cons a as)
  then show ?thesis using shuffle_loop_set[of "length xs - 1" xs g] by (simp add: shuffle_def)
qed

lemma ident_set_fields: "ident (set_fields e g d) = ident d"
  by (simp add: set_fields_def)

lemma update_one_ids: "map ident (fst (update_one coll i e g)) = map ident coll"
  by (induction coll) (auto simp: ident_set_fields split: prod.splits)

lemma update_one_matched: "i \<in> ident ` set coll \<Longrightarrow> fst (snd (update_one coll i e g)) = 1"
  by (induction coll) (auto split: prod.splits)


lemma update_users_matched:
  "ident ` set us \<subseteq> ident ` set coll \<Longrightarrow>
   fst (snd (update_users coll us m k)) = m + length us"
proof (induction us arbitrary: coll m k)
  case Nil then show ?case by simp
next
  case (Cons u us)
  obtain c' a b where u1: "update_one coll (ident u) (inExperiment u) (group u) = (c', a, b)"
    by (metis prod_cases3)
  have a: "a = 1" using update_one_matched[of "ident u" coll "inExperiment u" "group u"] Cons.prems u1 by simp
  have "map ident c' = map ident coll" using update_one_ids[of coll "ident u" "inExperiment u" "group u"] u1 by simp
  then have "ident ` set c' = ident ` set coll" by (metis set_map)
  then have "ident ` set us \<subseteq> ident ` set c'" using Cons.prems by simp
  from Cons.IH[OF this] show ?case using u1 a by simp
qed

lemma run_days_done: "\<not> c < e \<Longrightarrow> run_days a c e coll g daily = (Inr daily, coll, g)"
  by (subst run_days.simps) simp


lemma update_many_unset_eq:
  "update_many_unset c = (map reset_doc c, length (filter in_experiment c), length (filter in_experiment c))"
  by (induction c) (simp_all add: reset_doc_def)

lemma not_in_experiment_reset_doc: "\<not> in_experiment (reset_doc d)"
  by (simp add: reset_doc_def in_experiment_def unset_fields_def)

lemma reset_doc_twice: "reset_doc (reset_doc d) = reset_doc d"
  by (simp add: reset_doc_def in_experiment_def unset_fields_def)

lemma reset_doc_idem: "map reset_doc (map reset_doc c) = map reset_doc c"
  by (simp add: reset_doc_twice)

lemma reset_doc_id: "list_all (\<lambda>d. \<not> in_experiment d) c \<Longrightarrow> map reset_doc c = c"
  by (induction c) (simp_all add: reset_doc_def)

lemma filter_none: "list_all (\<lambda>d. \<not> in_experiment d) c \<Longrightarrow> filter in_experiment c = []"
  by (induction c) simp_all

lemma get_put_coll:
  "get_coll (put_coll db name c) n =
     (if n = name \<and> name \<in> fst ` set db then c else get_coll db n)"
  by (induction db) (force simp: get_coll_def dict_get_def)+

lemma get_coll_absent: "name \<notin> fst ` set db \<Longrightarrow> get_coll db name = []"
  by (induction db) (auto simp: get_coll_def dict_get_def)

lemma get_put_reset:
  "get_coll (put_coll db name (map reset_doc (get_coll db name))) n =
     (if n = name then map reset_doc (get_coll db n) else get_coll db n)"
  by (cases "name \<in> fst ` set db") (simp_all add: get_put_coll get_coll_absent)

lemma reset_collections_get:
  "get_coll (fst (reset_collections names db res)) n =
     (if n \<in> set names then map reset_doc (get_coll db n) else get_coll db n)"
proof (induction names arbitrary: db res)
  case Nil then show ?case by simp
next
  case (Cons name names)
  show ?case
    by (simp add: update_many_unset_eq Cons.IH get_put_reset reset_doc_twice)
qed

lemma database_reset:
  "get_coll (fst (reset_collections (map fst db) db res)) n = map reset_doc (get_coll db n)"
proof (cases "n \<in> fst ` set db")
  case True then show ?thesis by (simp add: reset_collections_get)
next
  case False
  then have "get_coll db n = []" by (rule get_coll_absent)
  then show ?thesis using False by (simp add: reset_collections_get)
qed

lemma dict_get_zero:
  "list_all (\<lambda>(k, v). v = (0::nat, 0::nat)) res \<Longrightarrow> dict_get res k (0, 0) = (0, 0)"
  by (induction res) (auto simp: dict_get_def)

lemma dict_set_zero:
  "list_all (\<lambda>(k, v). v = (0::nat, 0::nat)) res \<Longrightarrow>
   list_all (\<lambda>(k, v). v = (0::nat, 0::nat)) (dict_set res k (0, 0))"
  by (induction res) auto

lemma reset_collections_clean:
  assumes "\<And>n. list_all (\<lambda>d. \<not> in_experiment d) (get_coll db n)"
    and "list_all (\<lambda>(k, v). v = (0::nat, 0::nat)) res"
  shows "list_all (\<lambda>(k, v). v = (0::nat, 0::nat)) (snd (reset_collections names db res))"
  using assms
proof (induction names arbitrary: db res)
  case Nil then show ?case by simp
next
  case (Cons name names)
  let ?db = "put_coll db name (map reset_doc (get_coll db name))"
  have id: "map reset_doc (get_coll db n) = get_coll db n" for n
    using Cons.prems(1) by (rule reset_doc_id)
  have "get_coll ?db n = (if n = name then map reset_doc (get_coll db n) else get_coll db n)" for n
    by (rule get_put_reset)
  then have "get_coll ?db n = get_coll db n" for n
    using id by simp
  then have clean: "\<And>n. list_all (\<lambda>d. \<not> in_experiment d) (get_coll ?db n)"
    using Cons.prems(1) by simp
  have zero: "list_all (\<lambda>(k, v). v = (0::nat, 0::nat)) (dict_set res name (0, 0))"
    using Cons.prems(2) by (rule dict_set_zero)
  have "filter in_experiment (get_coll db name) = []"
    using Cons.prems(1) by (rule filter_none)
  then show ?case
    using Cons.IH[OF clean zero] by (simp add: update_many_unset_eq)
qed

lemma reset_other_database:
  "handle_db e \<noteq> db_name e \<Longrightarrow>
   experiment_collection (fst (reset_experiment store e)) e = experiment_collection store e"
  by (simp add: reset_experiment_def experiment_collection_def split: prod.splits)

lemma reset_sample:
  "reset_experiment (single_store c) sample_experiment =
     ((single_store c)(''db'' := [(''applicants'', map reset_doc c)]),
      length (filter in_experiment c), length (filter in_experiment c))"
  by (simp add: reset_experiment_def single_store_def update_many_unset_eq get_coll_def
      dict_get_def sample_experiment_def)

lemma collection_sample:
  "experiment_collection (s(''db'' := [(''applicants'', c)])) sample_experiment = c"
  by (simp add: experiment_collection_def sample_experiment_def get_coll_def dict_get_def)


text \<open>
  When the collection of the experiment lies in the database that \<open>reset_experiment\<close>
  resets, the reset does what is expected of it: of two consecutive resets the second
  matches and modifies nothing, the first removes both fields from exactly the documents
  with \<open>inExperiment = True\<close>, and afterwards no document is in the experiment.
\<close>

lemma reset_twice_same_database:
  assumes "handle_db e = db_name e"
    and "reset_experiment store e = (store1, r1)"
    and "reset_experiment store1 e = (store2, r2)"
  shows "r2 = (0, 0)
    \<and> experiment_collection store1 e = map reset_doc (experiment_collection store e)
    \<and> experiment_collection store2 e = experiment_collection store1 e
    \<and> list_all (\<lambda>d. \<not> in_experiment d) (experiment_collection store1 e)
    \<and> (list_all group_needs_in_experiment (experiment_collection store e)
         \<longrightarrow> list_all not_in_experiment (experiment_collection store1 e))"
proof -
  let ?db = "store (db_name e)"
  let ?db1 = "fst (reset_collections (map fst ?db) ?db [])"
  have s1: "store1 = store(db_name e := ?db1)"
    using assms(2) by (simp add: reset_experiment_def split: prod.splits)
  have get1: "get_coll (store1 (db_name e)) n = map reset_doc (get_coll ?db n)" for n
    by (simp add: s1 database_reset)
  have clean1: "list_all (\<lambda>d. \<not> in_experiment d) (get_coll (store1 (db_name e)) n)" for n
    by (simp add: get1 list_all_iff not_in_experiment_reset_doc)
  let ?db2 = "reset_collections (map fst (store1 (db_name e))) (store1 (db_name e)) []"
  have s2: "store2 = store1(db_name e := fst ?db2)" and r2: "r2 = dict_get (snd ?db2) (collection_name e) (0, 0)"
    using assms(3) by (simp_all add: reset_experiment_def split: prod.splits)
  have "list_all (\<lambda>(k, v). v = (0::nat, 0::nat)) (snd ?db2)"
    using clean1 by (rule reset_collections_clean) simp
  then have c1: "r2 = (0, 0)" unfolding r2 by (rule dict_get_zero)
  have c2: "experiment_collection store1 e = map reset_doc (experiment_collection store e)"
    using assms(1) get1 by (simp add: experiment_collection_def)
  have "get_coll (store2 (db_name e)) n = get_coll (store1 (db_name e)) n" for n
    using clean1[of n] by (simp add: s2 database_reset reset_doc_id)
  then have c3: "experiment_collection store2 e = experiment_collection store1 e"
    using assms(1) by (simp add: experiment_collection_def)
  have c4: "list_all (\<lambda>d. \<not> in_experiment d) (experiment_collection store1 e)"
    using assms(1) clean1 by (simp add: experiment_collection_def)
  have c5: "list_all not_in_experiment (experiment_collection store1 e)"
    if "list_all group_needs_in_experiment (experiment_collection store e)"
    using that unfolding c2
    by (auto simp: list_all_iff group_needs_in_experiment_def not_in_experiment_def
        reset_doc_def in_experiment_def unset_fields_def)
  show ?thesis using c1 c2 c3 c4 c5 by blast
qed

lemma find_absent: "k \<notin> f ` set xs \<Longrightarrow> find (\<lambda>x. f x = k) xs = None"
  by (induction xs) auto

lemma update_one_map:
  "distinct (map ident coll) \<Longrightarrow>
   fst (update_one coll i e g) = map (\<lambda>d. if ident d = i then set_fields e g d else d) coll"
proof (induction coll)
  case Nil then show ?case by simp
next
  case (Cons d ds)
  show ?case
  proof (cases "ident d = i")
    case True
    then have "i \<notin> ident ` set ds" using Cons.prems by simp
    then have "\<forall>x\<in>set ds. ident x \<noteq> i" by blast
    then have "map (\<lambda>d. if ident d = i then set_fields e g d else d) ds = ds"
      by (simp add: map_idI)
    then show ?thesis using True by simp
  next
    case False
    then show ?thesis using Cons by (auto split: prod.splits)
  qed
qed

lemma update_users_map:
  "distinct (map ident coll) \<Longrightarrow> distinct (map ident us) \<Longrightarrow>
   fst (update_users coll us m k) = map (relabel us) coll"
proof (induction us arbitrary: coll m k)
  case Nil then show ?case by (simp add: relabel_def)
next
  case (Cons u us)
  let ?f = "\<lambda>d. if ident d = ident u then set_fields (inExperiment u) (group u) d else d"
  have c1: "fst (update_one coll (ident u) (inExperiment u) (group u)) = map ?f coll"
    using Cons.prems(1) by (rule update_one_map)
  have idf: "map ident (map ?f coll) = map ident coll"
    by (simp add: ident_set_fields cong: map_cong)
  have d1: "distinct (map ident (map ?f coll))" using Cons.prems(1) unfolding idf .
  have d2: "distinct (map ident us)" using Cons.prems(2) by simp
  have nf: "find (\<lambda>x. ident x = ident u) us = None"
    using Cons.prems(2) by (simp add: find_absent)
  have step: "relabel us (?f d) = relabel (u # us) d" for d
    using nf by (simp add: relabel_def ident_set_fields)
  have "fst (update_users coll (u # us) m k)
      = fst (update_users (map ?f coll) us (m + fst (snd (update_one coll (ident u) (inExperiment u) (group u))))
           (k + snd (snd (update_one coll (ident u) (inExperiment u) (group u)))))"
    using c1 by (auto split: prod.splits)
  also have "\<dots> = map (relabel us) (map ?f coll)" using d1 d2 by (rule Cons.IH)
  also have "\<dots> = map (relabel (u # us)) coll" using step by simp
  finally show ?case .
qed


lemma distinct_ident_shuffle:
  assumes "distinct (map ident xs)"
  shows "distinct (map ident (fst (shuffle g xs)))"
proof -
  let ?sh = "fst (shuffle g xs)"
  have "card (set (map ident ?sh)) = card (ident ` set xs)" by (simp add: shuffle_set)
  also have "\<dots> = length (map ident xs)" using assms by (metis distinct_card set_map)
  also have "\<dots> = length (map ident ?sh)" by (simp add: length_shuffle)
  finally show ?thesis by (rule card_distinct)
qed

lemma find_ident:
  assumes "distinct (map ident us)" and "u \<in> set us"
  shows "find (\<lambda>x. ident x = ident u) us = Some u"
  using assms by (induction us) force+

lemma relabel_member:
  "distinct (map ident us) \<Longrightarrow> u \<in> set us \<Longrightarrow> ident u = ident d \<Longrightarrow>
   relabel us d = set_fields (inExperiment u) (group u) d"
  using find_ident[of us u] by (simp add: relabel_def)

lemma relabel_other:
  "ident d \<notin> ident ` set us \<Longrightarrow> relabel us d = d"
proof -
  assume "ident d \<notin> ident ` set us"
  then have "find (\<lambda>u. ident u = ident d) us = None" by (rule find_absent)
  then show ?thesis by (simp add: relabel_def)
qed

lemma eligible_set_fields: "eligible s e (set_fields a b d) = eligible s e d"
  by (simp add: eligible_def set_fields_def)


lemma pad_rows_eq: "pad_rows first rows = rows @ replicate (3 - length rows) (fst first, ''completed'')"
proof (induction first rows rule: pad_rows.induct)
  case (1 first new_rows)
  show ?case
  proof (cases "length new_rows < 3")
    case True
    then have "3 - length new_rows = Suc (3 - length (new_rows @ [(fst first, ''completed'')]))"
      by simp
    then show ?thesis using True "1.IH"
      by (subst pad_rows.simps) (simp add: replicate_app_Cons_same)
  next
    case False
    then show ?thesis by (subst pad_rows.simps) simp
  qed
qed

lemma dropna_status: "snd ` set (dropna c) \<subseteq> admissionsQuiz ` set c"
  by (induction c) (auto split: option.splits)

lemma dropna_nonempty: "(dropna c \<noteq> []) = (\<exists>d\<in>set c. group d \<noteq> None)"
  by (induction c) (auto split: option.splits)

lemma length_unique_pos: "xs \<noteq> [] \<Longrightarrow> unique xs \<noteq> []"
  by (cases xs) simp_all

lemma set_unique: "set (unique xs) = set xs"
  by (induction xs) auto

lemma synthetic_rows_eq: "df \<noteq> [] \<Longrightarrow> synthetic_rows df = Inr (fabricated df)"
  by (cases df) (simp_all add: synthetic_rows_def fabricated_def pad_rows_eq Let_def)

lemma contingency_synthetic:
  assumes some: "\<exists>d\<in>set coll. in_experiment d \<and> group d \<noteq> None"
    and none: "''completed'' \<notin> snd ` set (dropna (filter in_experiment coll))"
  shows "get_contingency_table coll =
     Inr (crosstab_of (dropna (filter in_experiment coll)
            @ fabricated (dropna (filter in_experiment coll))))"
proof -
  let ?result = "filter in_experiment coll"
  have ex: "\<exists>d\<in>set ?result. group d \<noteq> None" using some by auto
  then have r: "?result \<noteq> []" by (metis empty_iff empty_set)
  have g: "\<not> list_all (\<lambda>d. group d = None) ?result" using ex by (auto simp: list_all_iff)
  have df: "dropna ?result \<noteq> []" using ex by (simp add: dropna_nonempty)
  show ?thesis
    unfolding get_contingency_table_def Let_def
    using r g none by (simp add: synthetic_rows_eq[OF df])
qed

lemma length_fabricated: "3 \<le> length (fabricated df)"
  by (simp add: fabricated_def)

lemma set_fabricated:
  "df \<noteq> [] \<Longrightarrow> r \<in> set (fabricated df) \<Longrightarrow> snd r = ''completed'' \<and> fst r \<in> fst ` set df"
proof -
  assume ne: "df \<noteq> []" and r: "r \<in> set (fabricated df)"
  have "hd df \<in> set df" using ne by simp
  then have h: "fst (hd df) \<in> fst ` set df" by (rule imageI)
  from r have "r \<in> (\<lambda>g. (g, ''completed'')) ` fst ` set df \<or> r = (fst (hd df), ''completed'')"
    unfolding fabricated_def by (auto simp: set_unique split: if_splits)
  then show ?thesis
  proof
    assume "r \<in> (\<lambda>g. (g, ''completed'')) ` fst ` set df"
    then obtain g where "g \<in> fst ` set df" and "r = (g, ''completed'')" by blast
    then show ?thesis by simp
  next
    assume "r = (fst (hd df), ''completed'')"
    then show ?thesis using h by simp
  qed
qed

lemma sample_two_days_counts: "daily_incomplete_counts sample_two_days = [1, 1]"
  by (simp add: daily_incomplete_counts_def sample_two_days_def day_of_def one_day_def Let_def)

lemma sum_list_const: "\<forall>c\<in>set cs. c = k \<Longrightarrow> sum_list cs = length cs * (k::nat)"
  by (induction cs) auto

lemma sum_list_all_zero: "\<forall>x\<in>set xs. f x = (0::real) \<Longrightarrow> sum_list (map f xs) = 0"
  by (induction xs) auto

lemma series_std_const:
  assumes "2 \<le> length cs" and "\<forall>c\<in>set cs. c = k"
  shows "series_std cs = Fin 0"
proof -
  define m where "m = real (sum_list cs) / real (length cs)"
  have n: "real (length cs) \<noteq> 0" using assms(1) by auto
  have "m = real k"
    unfolding m_def using n by (simp add: sum_list_const[OF assms(2)])
  then have "\<forall>x\<in>set cs. (real x - m)\<^sup>2 = 0" using assms(2) by simp
  then have "sum_list (map (\<lambda>x. (real x - m)\<^sup>2) cs) = 0" by (rule sum_list_all_zero)
  then show ?thesis using assms(1) unfolding series_std_def Let_def m_def by simp
qed

lemma norm_cdf_zero_scale: "norm_cdf x loc (fl_mul (Fin 0) s) = NaN"
  by (cases loc; cases s) simp_all

lemma fits_64_float: "fits_64 x \<Longrightarrow> int_to_float x = Inr (Fin (real_of_int x))"
proof -
  assume f: "fits_64 x"
  have "(2::int) ^ 64 \<le> 2 ^ 1024" by (rule power_increasing) simp_all
  moreover have "(2::int) ^ 63 < 2 ^ 64" by (rule power_strict_increasing) simp_all
  ultimately have "\<bar>x\<bar> < 2 ^ 1024" using f unfolding fits_64_def by linarith
  then show ?thesis by (simp add: int_to_float_def)
qed

lemma np_sqrt_fits: "fits_64 x \<Longrightarrow> \<exists>r. np_sqrt x = Inr r"
  by (simp add: np_sqrt_def)

lemma cdf_pct_errors:
  "calculate_cdf_pct coll n_obs n_days = Inl e \<Longrightarrow>
   e = KeyError \<or> e = AttributeError \<or> e = OverflowError \<or> e = TypeError"
  by (auto simp: calculate_cdf_pct_def get_no_quiz_per_day_def int_to_float_def np_sqrt_def
      norm_cdf_call_def Let_def split: sum.splits squeezed.splits list.splits if_splits)

lemma series_of_counts:
  "2 \<le> length cs \<Longrightarrow> daily_incomplete_counts coll = cs \<Longrightarrow> get_no_quiz_per_day coll = Inr (Series cs)"
  by (cases cs; cases "tl cs") (auto simp: get_no_quiz_per_day_def)

lemma assign_pass_map:
  assumes dist: "distinct (map ident coll)"
    and run: "assign_groups_for_date coll g start_date = (result, coll', g')"
    and sh: "shuffled = fst (shuffle g (find_eligible coll start_date (start_date + one_day)))"
  shows "coll' = map (\<lambda>d. if eligible start_date (start_date + one_day) d
                       then set_fields (Some True)
                              (Some (if d \<in> set (take (length shuffled div 2) shuffled)
                                     then control_label else treatment_label)) d
                       else d) coll"
proof -
  let ?users = "find_eligible coll start_date (start_date + one_day)"
  let ?m = "length shuffled div 2"
  define ctl where "ctl = map (set_fields (Some True) (Some control_label)) (take ?m shuffled)"
  define trt where "trt = map (set_fields (Some True) (Some treatment_label)) (drop ?m shuffled)"
  have set_sh: "set shuffled = set ?users" unfolding sh by (rule shuffle_set)
  have du: "distinct (map ident ?users)"
    using dist unfolding find_eligible_def by (rule distinct_map_filter)
  have dsh: "distinct (map ident shuffled)" unfolding sh using du by (rule distinct_ident_shuffle)
  have ids: "map ident (ctl @ trt) = map ident shuffled"
  proof -
    have "map ident ctl = map ident (take ?m shuffled)"
      unfolding ctl_def by (simp add: ident_set_fields comp_def)
    moreover have "map ident trt = map ident (drop ?m shuffled)"
      unfolding trt_def by (simp add: ident_set_fields comp_def)
    ultimately have "map ident (ctl @ trt) = map ident (take ?m shuffled @ drop ?m shuffled)"
      by (simp only: map_append)
    then show ?thesis by (simp only: append_take_drop_id)
  qed
  have dall: "distinct (map ident (ctl @ trt))" unfolding ids by (rule dsh)
  have c': "coll' = fst (update_users coll (ctl @ trt) 0 0)"
    using run unfolding assign_groups_for_date_def Let_def ctl_def trt_def sh
    by (simp split: prod.splits)
  have map_eq: "coll' = map (relabel (ctl @ trt)) coll"
    unfolding c' using dist dall by (rule update_users_map)
  have inj: "x \<in> set coll \<Longrightarrow> y \<in> set coll \<Longrightarrow> ident x = ident y \<Longrightarrow> x = y" for x y
  proof -
    assume "x \<in> set coll" "y \<in> set coll" "ident x = ident y"
    moreover have "inj_on ident (set coll)" using dist by (simp add: distinct_map)
    ultimately show "x = y" by (simp add: inj_on_eq_iff)
  qed
  have disj: "set (take ?m shuffled) \<inter> set (drop ?m shuffled) = {}"
  proof -
    have "distinct shuffled" using dsh by (simp add: distinct_map)
    then have "distinct (take ?m shuffled @ drop ?m shuffled)"
      by (simp only: append_take_drop_id)
    then show ?thesis by (simp only: distinct_append)
  qed
  have pt: "relabel (ctl @ trt) d =
      (if eligible start_date (start_date + one_day) d
       then set_fields (Some True)
              (Some (if d \<in> set (take ?m shuffled) then control_label else treatment_label)) d
       else d)" if d: "d \<in> set coll" for d
  proof (cases "eligible start_date (start_date + one_day) d")
    case True
    then have mem: "d \<in> set shuffled" using d set_sh by (simp add: find_eligible_def)
    show ?thesis
    proof (cases "d \<in> set (take ?m shuffled)")
      case inl: True
      let ?u = "set_fields (Some True) (Some control_label) d"
      have um: "?u \<in> set (ctl @ trt)" using inl by (simp add: ctl_def)
      have "relabel (ctl @ trt) d = set_fields (inExperiment ?u) (group ?u) d"
        using dall um by (rule relabel_member) (simp add: ident_set_fields)
      then show ?thesis using True inl by (simp add: set_fields_def)
    next
      case inr: False
      have "d \<in> set (take ?m shuffled) \<union> set (drop ?m shuffled)"
        using mem by (metis set_append append_take_drop_id)
      then have ind: "d \<in> set (drop ?m shuffled)" using inr by simp
      let ?u = "set_fields (Some True) (Some treatment_label) d"
      have um: "?u \<in> set (ctl @ trt)" using ind by (simp add: trt_def)
      have "relabel (ctl @ trt) d = set_fields (inExperiment ?u) (group ?u) d"
        using dall um by (rule relabel_member) (simp add: ident_set_fields)
      then show ?thesis using True inr by (simp add: set_fields_def)
    qed
  next
    case False
    have "ident d \<notin> ident ` set (ctl @ trt)"
    proof
      assume "ident d \<in> ident ` set (ctl @ trt)"
      then have "ident d \<in> set (map ident shuffled)" using ids by (metis set_map)
      then obtain x where x: "x \<in> set shuffled" "ident x = ident d" by auto
      then have "x \<in> set coll" "eligible start_date (start_date + one_day) x"
        using set_sh by (simp_all add: find_eligible_def)
      then show False using inj[of x d] d x(2) False by blast
    qed
    then show ?thesis using False by (simp add: relabel_other)
  qed
  have "map (relabel (ctl @ trt)) coll =
      map (\<lambda>d. if eligible start_date (start_date + one_day) d
               then set_fields (Some True)
                      (Some (if d \<in> set (take ?m shuffled) then control_label else treatment_label)) d
               else d) coll"
    by (rule map_cong) (simp_all only: pt)
  then show ?thesis unfolding map_eq .
qed

lemma unset_set_fields: "unset_fields (set_fields a b d) = unset_fields d"
  by (simp add: unset_fields_def set_fields_def)

lemma set_fields_twice: "set_fields a b (set_fields a' b' d) = set_fields a b d"
  by (simp add: set_fields_def)

lemma unset_setter: "unset_fields (setter sel d) = unset_fields d"
  by (simp add: setter_def unset_set_fields split: option.splits)

lemma setter_idem: "setter sel (setter sel d) = setter sel d"
  by (simp add: setter_def unset_set_fields set_fields_twice split: option.splits)

lemma setter_comp:
  "setter s2 (setter s1 d) = setter (\<lambda>e. case s2 e of Some x \<Rightarrow> Some x | None \<Rightarrow> s1 e) d"
  by (simp add: setter_def unset_set_fields set_fields_twice split: option.splits)

lemma shuffle_loop_map:
  "i < length xs \<Longrightarrow>
   shuffle_loop i g (map h xs) = (map h (fst (shuffle_loop i g xs)), snd (shuffle_loop i g xs))"
proof (induction i arbitrary: g xs)
  case 0 then show ?case by simp
next
  case (Suc i)
  let ?j = "g 0 mod (Suc i + 1)"
  have "?j < Suc i + 1" by (rule mod_less_divisor) simp
  then have j: "?j < length xs" using Suc.prems by linarith
  let ?xs = "xs[Suc i := xs ! ?j, ?j := xs ! Suc i]"
  have m: "(map h xs)[Suc i := map h xs ! ?j, ?j := map h xs ! Suc i] = map h ?xs"
    using j Suc.prems by (simp add: map_update)
  have i: "i < length ?xs" using Suc.prems by simp
  show ?case
    using Suc.IH[OF i, of "\<lambda>k. g (Suc k)"] m by (simp add: randbelow_def)
qed

lemma shuffle_map:
  "shuffle g (map h xs) = (map h (fst (shuffle g xs)), snd (shuffle g xs))"
proof (cases xs)
  case Nil then show ?thesis by (simp add: shuffle_def)
next
  case (Cons a as)
  then have "length xs - 1 < length xs" by simp
  then show ?thesis unfolding shuffle_def by (simp add: shuffle_loop_map)
qed


lemma eligible_unset: "eligible s e (unset_fields d) = eligible s e d"
  by (simp add: eligible_def unset_fields_def)

lemma ident_unset: "ident (unset_fields d) = ident d"
  by (simp add: unset_fields_def)

lemma find_eligible_unset:
  "find_eligible (map unset_fields c) s e = map unset_fields (find_eligible c s e)"
  by (simp add: find_eligible_def filter_map comp_def eligible_unset)

lemma same_ids: "map unset_fields c = map unset_fields c' \<Longrightarrow> map ident c = map ident c'"
proof -
  assume "map unset_fields c = map unset_fields c'"
  then have "map ident (map unset_fields c) = map ident (map unset_fields c')" by simp
  then show ?thesis by (simp add: comp_def ident_unset)
qed

lemma assign_generator:
  "snd (snd (assign_groups_for_date c g s)) = snd (shuffle g (find_eligible c s (s + one_day)))"
  by (simp add: assign_groups_for_date_def Let_def split: prod.splits)

lemma pass_setter:
  assumes "distinct (map ident coll)"
  shows "\<exists>sel g'. \<forall>c. map unset_fields c = map unset_fields coll \<longrightarrow>
           fst (snd (assign_groups_for_date c g s)) = map (setter sel) c
         \<and> snd (snd (assign_groups_for_date c g s)) = g'"
proof -
  define E where "E = map unset_fields coll"
  define shE where "shE = fst (shuffle g (find_eligible E s (s + one_day)))"
  define gE where "gE = snd (shuffle g (find_eligible E s (s + one_day)))"
  define sel where "sel = (\<lambda>e. if eligible s (s + one_day) e
      then Some (Some True, Some (if ident e \<in> set (take (length shE div 2) (map ident shE))
                                  then control_label else treatment_label))
      else None)"
  have "fst (snd (assign_groups_for_date c g s)) = map (setter sel) c
      \<and> snd (snd (assign_groups_for_date c g s)) = gE"
    if c: "map unset_fields c = E" for c
  proof -
    let ?users = "find_eligible c s (s + one_day)"
    let ?sh = "fst (shuffle g ?users)"
    have dc: "distinct (map ident c)"
      using assms same_ids[of c coll] c by (simp add: E_def)
    have "find_eligible E s (s + one_day) = map unset_fields ?users"
      unfolding c[symmetric] by (rule find_eligible_unset)
    then have shm: "shuffle g (find_eligible E s (s + one_day))
        = (map unset_fields ?sh, snd (shuffle g ?users))"
      by (simp add: shuffle_map)
    have shE': "shE = map unset_fields ?sh" unfolding shE_def shm by simp
    have g2: "snd (snd (assign_groups_for_date c g s)) = gE"
      unfolding gE_def shm by (simp add: assign_generator)
    have ids: "map ident shE = map ident ?sh" and len: "length shE = length ?sh"
      unfolding shE' by (simp_all add: comp_def ident_unset)
    have inj: "x \<in> set c \<Longrightarrow> y \<in> set c \<Longrightarrow> ident x = ident y \<Longrightarrow> x = y" for x y
    proof -
      assume "x \<in> set c" "y \<in> set c" "ident x = ident y"
      moreover have "inj_on ident (set c)" using dc by (simp add: distinct_map)
      ultimately show "x = y" by (simp add: inj_on_eq_iff)
    qed
    have sub: "set ?sh \<subseteq> set c"
      by (auto simp: shuffle_set find_eligible_def)
    have mem: "(d \<in> set (take (length ?sh div 2) ?sh))
        = (ident d \<in> set (take (length shE div 2) (map ident shE)))" if d: "d \<in> set c" for d
    proof
      assume "d \<in> set (take (length ?sh div 2) ?sh)"
      then have "ident d \<in> ident ` set (take (length ?sh div 2) ?sh)" by (rule imageI)
      then show "ident d \<in> set (take (length shE div 2) (map ident shE))"
        unfolding ids len by (simp add: take_map)
    next
      assume "ident d \<in> set (take (length shE div 2) (map ident shE))"
      then have "ident d \<in> ident ` set (take (length ?sh div 2) ?sh)"
        unfolding ids len by (simp add: take_map)
      then obtain x where x: "x \<in> set (take (length ?sh div 2) ?sh)" "ident x = ident d"
        by auto
      then have "x \<in> set c" using sub by (meson in_set_takeD subsetD)
      then have "x = d" using d x(2) by (rule inj)
      then show "d \<in> set (take (length ?sh div 2) ?sh)" using x(1) by simp
    qed
    have pt: "(if eligible s (s + one_day) d
               then set_fields (Some True)
                  (Some (if d \<in> set (take (length ?sh div 2) ?sh)
                         then control_label else treatment_label)) d
               else d) = setter sel d" if d: "d \<in> set c" for d
      unfolding setter_def sel_def by (simp add: eligible_unset ident_unset mem[OF d])
    have "fst (snd (assign_groups_for_date c g s)) =
        map (\<lambda>d. if eligible s (s + one_day) d
               then set_fields (Some True)
                  (Some (if d \<in> set (take (length ?sh div 2) ?sh)
                         then control_label else treatment_label)) d
               else d) c"
    proof -
      have p: "assign_groups_for_date c g s = (fst (assign_groups_for_date c g s),
          fst (snd (assign_groups_for_date c g s)), snd (snd (assign_groups_for_date c g s)))"
        by simp
      show ?thesis using dc p refl by (rule assign_pass_map)
    qed
    also have "\<dots> = map (setter sel) c"
      by (rule map_cong) (simp_all only: pt)
    finally show ?thesis using g2 by simp
  qed
  then show ?thesis unfolding E_def by blast
qed


lemma setter_none: "map (setter (\<lambda>e. None)) c = c"
  by (simp add: setter_def map_idI)

lemma map_unset_setter: "map unset_fields (map (setter sel) c) = map unset_fields c"
  by (simp add: comp_def unset_setter)

lemma run_days_setter:
  fixes daily :: daily
  shows "distinct (map ident coll) \<Longrightarrow>
   \<exists>sel g'. \<forall>c d. map unset_fields c = map unset_fields coll \<longrightarrow>
       fst (snd (run_days True cur e c g d)) = map (setter sel) c
     \<and> snd (snd (run_days True cur e c g d)) = g'"
proof (induction "True" cur e coll g daily rule: run_days.induct)
  case (1 cur e coll g daily)
  show ?case
  proof (cases "cur < e \<and> \<not> cur < year_1000")
    case False
    have st: "fst (snd (run_days True cur e c g d)) = c \<and> snd (snd (run_days True cur e c g d)) = g"
      for c d
    proof (cases "cur < e")
      case True
      then have "cur < year_1000" using False by simp
      then show ?thesis using True by (simp add: run_days_early)
    next
      case stop: False
      then show ?thesis by (simp add: run_days_done)
    qed
    have "\<forall>c d. map unset_fields c = map unset_fields coll \<longrightarrow>
        fst (snd (run_days True cur e c g d)) = map (setter (\<lambda>e. None)) c
      \<and> snd (snd (run_days True cur e c g d)) = g"
      by (simp add: st setter_none)
    then show ?thesis by blast
  next
    case True
    then have lt: "cur < e" and late: "\<not> cur < year_1000" by simp_all
    let ?p = "assign_groups_for_date coll g cur"
    obtain sel1 g1 where p1: "\<forall>c. map unset_fields c = map unset_fields coll \<longrightarrow>
          fst (snd (assign_groups_for_date c g cur)) = map (setter sel1) c
        \<and> snd (snd (assign_groups_for_date c g cur)) = g1"
      using pass_setter[OF "1.prems"] by blast
    have own: "fst (snd ?p) = map (setter sel1) coll" "snd (snd ?p) = g1"
      using p1 by simp_all
    have "map ident (map (setter sel1) coll) = map ident coll"
      using map_unset_setter[of sel1 coll] by (rule same_ids)
    then have d1: "distinct (map ident (fst (snd ?p)))"
      using "1.prems" unfolding own by (simp only:)
    have "\<exists>sel g'. \<forall>c d. map unset_fields c = map unset_fields (fst (snd ?p)) \<longrightarrow>
        fst (snd (run_days True (cur + one_day) e c (snd (snd ?p)) d)) = map (setter sel) c
      \<and> snd (snd (run_days True (cur + one_day) e c (snd (snd ?p)) d)) = g'"
      using "1.hyps"(1)[OF lt late TrueI prod.collapse prod.collapse d1] .
    then obtain sel2 g2 where p2: "\<forall>c d. map unset_fields c = map unset_fields coll \<longrightarrow>
        fst (snd (run_days True (cur + one_day) e c g1 d)) = map (setter sel2) c
      \<and> snd (snd (run_days True (cur + one_day) e c g1 d)) = g2"
      unfolding own map_unset_setter by blast
    let ?sel = "\<lambda>x. case sel2 x of Some y \<Rightarrow> Some y | None \<Rightarrow> sel1 x"
    have "fst (snd (run_days True cur e c g d)) = map (setter ?sel) c
        \<and> snd (snd (run_days True cur e c g d)) = g2"
      if c: "map unset_fields c = map unset_fields coll" for c d
    proof -
      let ?q = "assign_groups_for_date c g cur"
      have q: "fst (snd ?q) = map (setter sel1) c" "snd (snd ?q) = g1"
        using p1 c by simp_all
      have c1: "map unset_fields (map (setter sel1) c) = map unset_fields coll"
        unfolding map_unset_setter by (rule c)
      have "run_days True cur e c g d =
          run_days True (cur + one_day) e (map (setter sel1) c) g1 (dict_set d cur (fst ?q))"
        using lt late q by (subst run_days.simps) (auto split: prod.splits)
      then show ?thesis
        using p2 c1 by (simp add: setter_comp comp_def)
    qed
    then show ?thesis by blast
  qed
qed

lemma run_experiment_coll:
  "fst (snd (run_experiment rs now c g n True seed)) =
     (if max_timedelta_days < \<bar>n\<bar> \<or> midnight now - n * one_day < min_datetime
         \<or> max_datetime < midnight now - n * one_day
      then c
      else fst (snd (run_days True (midnight now - n * one_day) (midnight now) c (rs seed) [])))"
  by (auto simp: run_experiment_def Let_def split: prod.splits sum.splits)

lemma contingency_key_error:
  assumes "\<not> (\<exists>d\<in>set coll. in_experiment d \<and> group d \<noteq> None)"
  shows "get_contingency_table coll = Inl KeyError"
proof -
  have "list_all (\<lambda>d. group d = None) (filter in_experiment coll)"
    using assms by (auto simp: list_all_iff)
  then show ?thesis by (simp add: get_contingency_table_def Let_def)
qed

lemma fabricated_nonempty: "fabricated df \<noteq> []"
  using length_fabricated[of df] by auto

lemma fst_rows_fabricated:
  assumes "df \<noteq> []"
  shows "set (map fst (df @ fabricated df)) = set (map fst df)"
proof -
  have "fst ` set (fabricated df) \<subseteq> fst ` set df"
    using set_fabricated[OF assms] by blast
  then show ?thesis by auto
qed

lemma snd_rows_fabricated:
  assumes "df \<noteq> []"
  shows "set (map snd (df @ fabricated df)) = insert ''completed'' (set (map snd df))"
proof -
  obtain r where r: "r \<in> set (fabricated df)"
    using fabricated_nonempty[of df] by (meson last_in_set)
  have all: "\<forall>x\<in>set (fabricated df). snd x = ''completed''"
    using set_fabricated[OF assms] by blast
  then have "snd ` set (fabricated df) = {''completed''}"
    using r by force
  then show ?thesis by (simp add: image_Un Un_commute)
qed

lemma length_sorted_labels: "length (sort (remdups xs)) = card (set xs)"
  by (simp add: length_remdups_card_conv)

lemma crosstab_shape:
  assumes ne: "df \<noteq> []" and none: "''completed'' \<notin> snd ` set df"
  shows "length (ct_values (crosstab_of (df @ fabricated df))) = length (remdups (map fst df))"
    and "list_all (\<lambda>r. length r = Suc (length (remdups (map snd df))))
           (ct_values (crosstab_of (df @ fabricated df)))"
proof -
  have g: "length (sort (remdups (map fst (df @ fabricated df)))) = length (remdups (map fst df))"
    unfolding length_sorted_labels fst_rows_fabricated[OF ne]
    by (simp add: length_remdups_card_conv)
  have "card (insert ''completed'' (set (map snd df))) = Suc (card (set (map snd df)))"
    using none by simp
  then have c: "length (sort (remdups (map snd (df @ fabricated df))))
      = Suc (length (remdups (map snd df)))"
    unfolding length_sorted_labels snd_rows_fabricated[OF ne]
    by (simp add: length_remdups_card_conv)
  show "length (ct_values (crosstab_of (df @ fabricated df))) = length (remdups (map fst df))"
    using g by (simp add: crosstab_of_def Let_def)
  show "list_all (\<lambda>r. length r = Suc (length (remdups (map snd df))))
           (ct_values (crosstab_of (df @ fabricated df)))"
    using c by (simp add: crosstab_of_def Let_def list_all_iff)
qed

lemma chi_square_synthetic:
  assumes some: "\<exists>d\<in>set coll. in_experiment d \<and> group d \<noteq> None"
    and none: "''completed'' \<notin> snd ` set (dropna (filter in_experiment coll))"
  shows "run_chi_square coll =
     (if length (remdups (map fst (dropna (filter in_experiment coll)))) = 2
         \<and> length (remdups (map snd (dropna (filter in_experiment coll)))) = 1
      then Inr (ct_values (crosstab_of (dropna (filter in_experiment coll)
                  @ fabricated (dropna (filter in_experiment coll)))))
      else Inl ValueError)"
proof -
  let ?df = "dropna (filter in_experiment coll)"
  let ?t = "crosstab_of (?df @ fabricated ?df)"
  have ne: "?df \<noteq> []" using some by (auto simp: dropna_nonempty)
  have tab: "get_contingency_table coll = Inr ?t"
    using some none by (rule contingency_synthetic)
  have rows: "length (ct_values ?t) = length (remdups (map fst ?df))"
    and cells: "list_all (\<lambda>r. length r = Suc (length (remdups (map snd ?df)))) (ct_values ?t)"
    using crosstab_shape[OF ne none] by simp_all
  have "(length (ct_values ?t) = 2 \<and> list_all (\<lambda>r. length r = 2) (ct_values ?t))
      = (length (remdups (map fst ?df)) = 2 \<and> length (remdups (map snd ?df)) = 1)"
  proof (cases "length (remdups (map fst ?df)) = 2")
    case False
    then show ?thesis using rows by simp
  next
    case True
    then have "ct_values ?t \<noteq> []" using rows by auto
    then obtain r where r: "r \<in> set (ct_values ?t)" by (meson last_in_set)
    have "\<forall>x\<in>set (ct_values ?t). length x = Suc (length (remdups (map snd ?df)))"
      using cells by (simp add: list_all_iff)
    then have "list_all (\<lambda>r. length r = 2) (ct_values ?t)
        = (Suc (length (remdups (map snd ?df))) = 2)"
      using r by (auto simp: list_all_iff)
    then show ?thesis using True rows by auto
  qed
  then show ?thesis unfolding run_chi_square_def tab by simp
qed

section \<open>Claims\<close>

text \<open>
  C10. For every number of days and every content of the collection, \<open>run_experiment\<close>
  with \<open>assignment = False\<close> gives \<open>total_assigned = 0\<close> whenever it returns, whatever
  the number of eligible applicants counted: each day's result is the dictionary
  \<open>{"count": c}\<close> of \<open>_count_users_for_date\<close>, and the total is summed over the key
  \<open>"n"\<close>, which those dictionaries lack. It returns, with the collection as it was, for
  every number of days whose dates are in range; for the others the date arithmetic or
  the parsing of the first date raises \<open>OverflowError\<close> or \<open>ValueError\<close> before anything
  is counted.
\<close>

theorem count_only_total_is_zero:
  "(dates_in_range now n_days \<longrightarrow>
      (\<exists>r. run_experiment random_seed now coll g n_days False seed = (Inr r, coll, g)
         \<and> total_assigned r = 0
         \<and> list_all (\<lambda>(date, day).
               day = [(''count'', count_documents coll (eligible date (date + one_day)))])
             (daily_results r)))
   \<and> (\<not> dates_in_range now n_days \<longrightarrow>
        run_experiment random_seed now coll g n_days False seed = (Inl OverflowError, coll, g)
      \<or> run_experiment random_seed now coll g n_days False seed = (Inl ValueError, coll, g))
   \<and> (\<forall>r coll' g'.
        run_experiment random_seed now coll g n_days False seed = (Inr r, coll', g')
        \<longrightarrow> total_assigned r = 0)"
proof -
  let ?start = "midnight now - n_days * one_day"
  let ?run = "run_experiment random_seed now coll g n_days False seed"
  obtain res coll1 g1 where
    rd: "run_days False ?start (midnight now) coll g [] = (res, coll1, g1)"
    by (metis prod_cases3)
  have inv: "coll1 = coll \<and> g1 = g \<and>
      (\<forall>daily'. res = Inr daily' \<longrightarrow>
         list_all (\<lambda>(date, day). day = count_users_for_date coll date) daily')"
    using run_days_count_only[OF _ rd] by simp
  obtain s where s: "calculate_experiment_stats coll = Inr s"
    using stats_Inr by blast
  have good: "\<exists>r. ?run = (Inr r, coll, g) \<and> total_assigned r = 0
         \<and> list_all (\<lambda>(date, day).
               day = [(''count'', count_documents coll (eligible date (date + one_day)))])
             (daily_results r)"
    if ok: "dates_in_range now n_days"
  proof -
    have no_ov: "\<not> max_timedelta_days < \<bar>n_days\<bar>" "\<not> (?start < min_datetime \<or> max_datetime < ?start)"
      using ok by (auto simp: dates_in_range_def start_date_of_def)
    have "\<exists>daily. res = Inr daily"
    proof (cases "?start < midnight now")
      case False
      then have "run_days False ?start (midnight now) coll g [] = (Inr [], coll, g)"
        by (rule run_days_done)
      then show ?thesis using rd by (metis fst_conv)
    next
      case True
      then have "year_1000 \<le> ?start"
        using ok by (auto simp: dates_in_range_def start_date_of_def)
      then show ?thesis
        using run_days_count_returns[of ?start "midnight now" coll g "[]"] rd by simp
    qed
    then obtain daily where daily: "res = Inr daily" by blast
    have l: "list_all (\<lambda>(date, day). day = count_users_for_date coll date) daily"
      using inv daily by blast
    then have z: "sum_list (map (\<lambda>(date, day). dict_get day ''n'' 0) daily) = 0"
      by (rule sum_list_no_key)
    have l': "list_all (\<lambda>(date, day).
        day = [(''count'', count_documents coll (eligible date (date + one_day)))]) daily"
      using l by (simp add: count_users_for_date_def Let_def)
    show ?thesis
      using rd inv daily z s l' no_ov by (simp add: run_experiment_def Let_def)
  qed
  have bad: "?run = (Inl OverflowError, coll, g) \<or> ?run = (Inl ValueError, coll, g)"
    if nok: "\<not> dates_in_range now n_days"
  proof (cases "max_timedelta_days < \<bar>n_days\<bar> \<or> ?start < min_datetime \<or> max_datetime < ?start")
    case True
    then show ?thesis by (auto simp: run_experiment_def Let_def)
  next
    case False
    then have "?start < midnight now" "?start < year_1000"
      using nok by (auto simp: dates_in_range_def start_date_of_def)
    then have "run_days False ?start (midnight now) coll g [] = (Inl ValueError, coll, g)"
      by (rule run_days_early)
    then show ?thesis using False by (simp add: run_experiment_def Let_def)
  qed
  have any: "total_assigned r = 0" if "?run = (Inr r, coll', g')" for r coll' g'
  proof (cases "dates_in_range now n_days")
    case True
    then show ?thesis using good that by auto
  next
    case False
    then show ?thesis using bad that by auto
  qed
  show ?thesis using good bad any by blast
qed

theorem count_only_total_is_zero_witness:
  "dates_in_range 100000 2
   \<and> (\<exists>r. run_experiment sample_seed 100000 sample_day (\<lambda>k. 0) 2 False 42
             = (Inr r, sample_day, \<lambda>k. 0)
        \<and> total_assigned r = 0
        \<and> list_all (\<lambda>(date, day).
              day = [(''count'', count_documents sample_day (eligible date (date + one_day)))])
            (daily_results r))
   \<and> \<not> dates_in_range 100000 1000000
   \<and> (run_experiment sample_seed 100000 sample_day (\<lambda>k. 0) 1000000 False 42
         = (Inl OverflowError, sample_day, \<lambda>k. 0)
      \<or> run_experiment sample_seed 100000 sample_day (\<lambda>k. 0) 1000000 False 42
         = (Inl ValueError, sample_day, \<lambda>k. 0))"
proof -
  have a: "dates_in_range 100000 2"
    by (simp add: dates_in_range_def start_date_of_def midnight_def one_day_def
        max_timedelta_days_def min_datetime_def max_datetime_def year_1000_def)
  have b: "\<not> dates_in_range 100000 1000000"
    by (simp add: dates_in_range_def start_date_of_def midnight_def one_day_def
        max_timedelta_days_def min_datetime_def max_datetime_def year_1000_def)
  show ?thesis
    using count_only_total_is_zero[of 100000 2 sample_seed sample_day "\<lambda>k. 0" 42]
      count_only_total_is_zero[of 100000 1000000 sample_seed sample_day "\<lambda>k. 0" 42] a b
    by blast
qed

text \<open>
  C1. For the cohort of \<open>n\<close> documents selected by \<open>_assign_groups_for_date\<close> (created
  within the day, quiz incomplete), the control half has \<open>n div 2\<close> members (the floor of
  \<open>n / 2\<close>) and the treatment half \<open>(n + 1) div 2\<close> (the ceiling); the sizes add up to
  \<open>n\<close>, the treatment half has as many members as the control half or one more, and all
  \<open>n\<close> updates match a document. An empty cohort gives empty halves, no modification
  and an unchanged collection. The function has no failing branch.
\<close>

theorem assign_sizes:
  assumes "assign_groups_for_date coll g start_date = (result, coll', g')"
    and "n = length (find_eligible coll start_date (start_date + one_day))"
  shows "dict_get result ''control_size'' 0 = n div 2
       \<and> dict_get result ''treatment_size'' 0 = (n + 1) div 2
       \<and> dict_get result ''control_size'' 0 + dict_get result ''treatment_size'' 0 = n
       \<and> (dict_get result ''treatment_size'' 0 - dict_get result ''control_size'' 0 = 0
          \<or> dict_get result ''treatment_size'' 0 - dict_get result ''control_size'' 0 = 1)
       \<and> dict_get result ''control_size'' 0 \<le> dict_get result ''treatment_size'' 0
       \<and> dict_get result ''n'' 0 = n
       \<and> (n = 0 \<longrightarrow> dict_get result ''n_modified'' 0 = 0 \<and> coll' = coll)"
proof -
  let ?users = "find_eligible coll start_date (start_date + one_day)"
  obtain sh g1 where sh: "shuffle g ?users = (sh, g1)" by (metis surj_pair)
  have len: "length sh = n" using length_shuffle[of g ?users] sh assms(2) by simp
  have set_sh: "set sh = set ?users" using shuffle_set[of g ?users] sh by simp
  define ctl where "ctl = map (set_fields (Some True) (Some control_label)) (take (length sh div 2) sh)"
  define trt where "trt = map (set_fields (Some True) (Some treatment_label)) (drop (length sh div 2) sh)"
  obtain c1 m k where uu: "update_users coll (ctl @ trt) 0 0 = (c1, m, k)" by (metis prod_cases3)
  have res: "result = [(''n'', m), (''n_modified'', k),
      (''control_size'', length ctl), (''treatment_size'', length trt)]" and c1: "coll' = c1"
    using assms(1) sh uu unfolding assign_groups_for_date_def Let_def ctl_def trt_def
    by simp_all
  have "ident ` set (ctl @ trt) = ident ` (set (take (length sh div 2) sh) \<union> set (drop (length sh div 2) sh))"
    unfolding ctl_def trt_def by (simp add: image_Un image_image ident_set_fields)
  also have "\<dots> = ident ` set sh" by (metis set_append append_take_drop_id)
  also have "\<dots> \<subseteq> ident ` set coll" using set_sh by (auto simp: find_eligible_def)
  finally have "fst (snd (update_users coll (ctl @ trt) 0 0)) = 0 + length (ctl @ trt)"
    by (rule update_users_matched)
  then have m: "m = n" using uu len by (simp add: ctl_def trt_def)
  have "n = 0 \<Longrightarrow> ctl @ trt = []" using len by (simp add: ctl_def trt_def)
  then have zero: "n = 0 \<Longrightarrow> k = 0 \<and> c1 = coll" using uu by simp
  have lc: "length ctl = n div 2" using len by (simp add: ctl_def)
  have lt: "length trt = n - n div 2" using len by (simp add: trt_def)
  have cs: "dict_get result ''control_size'' 0 = n div 2"
    unfolding res dict_get_def using lc by simp
  have ts: "dict_get result ''treatment_size'' 0 = n - n div 2"
    unfolding res dict_get_def using lt by simp
  have nn: "dict_get result ''n'' 0 = n" unfolding res dict_get_def using m by simp
  have nm: "dict_get result ''n_modified'' 0 = k" unfolding res dict_get_def by simp
  have a1: "n - n div 2 = (n + 1) div 2" by arith
  have a2: "n div 2 + (n - n div 2) = n" by arith
  have a3: "(n - n div 2) - n div 2 = 0 \<or> (n - n div 2) - n div 2 = 1" by arith
  have a4: "n div 2 \<le> n - n div 2" by arith
  show ?thesis unfolding cs ts nn nm c1 using a1 a2 a3 a4 zero by blast
qed

theorem assign_sizes_witness:
  "length (find_eligible sample_day 0 (0 + one_day)) = 3
   \<and> dict_get (fst (assign_groups_for_date sample_day (\<lambda>k. k) 0)) ''control_size'' 0 = 1
   \<and> dict_get (fst (assign_groups_for_date sample_day (\<lambda>k. k) 0)) ''treatment_size'' 0 = 2
   \<and> dict_get (fst (assign_groups_for_date sample_day (\<lambda>k. k) 0)) ''n'' 0 = 3
   \<and> length (find_eligible [] 0 (0 + one_day)) = 0
   \<and> dict_get (fst (assign_groups_for_date [] (\<lambda>k. k) 0)) ''n_modified'' 0 = 0
   \<and> fst (snd (assign_groups_for_date [] (\<lambda>k. k) 0)) = []"
proof -
  have n3: "3 = length (find_eligible sample_day 0 (0 + one_day))"
    by (simp add: sample_day_def find_eligible_def eligible_def one_day_def)
  have n0: "0 = length (find_eligible [] 0 (0 + one_day))"
    by (simp add: find_eligible_def)
  have p: "p = (fst p, fst (snd p), snd (snd p))" for p :: "counts \<times> collection \<times> rng"
    by simp
  show ?thesis
    using assign_sizes[OF p n3] assign_sizes[OF p n0] n3 n0 by simp
qed

text \<open>
  C2. Two calls of \<open>run_experiment\<close> with \<open>assignment = True\<close>, the same number of days,
  the same seed, the same collection and the same clock reading give the same result,
  the same final collection (hence the same group for every applicant) and the same
  generator state, whatever the state of the global generator before each call: the
  generator is seeded before the first assignment. Moreover, in a collection with
  distinct \<open>_id\<close>s, a second such call on the collection as the first call left it
  assigns every applicant the group it already has: the collection does not change.
\<close>

theorem seeded_run_deterministic:
  "run_experiment random_seed now coll g1 n_days True seed
     = run_experiment random_seed now coll g2 n_days True seed
   \<and> (distinct (map ident coll) \<longrightarrow>
        fst (snd (run_experiment random_seed now
                    (fst (snd (run_experiment random_seed now coll g1 n_days True seed)))
                    g2 n_days True seed))
        = fst (snd (run_experiment random_seed now coll g1 n_days True seed)))"
proof -
  have a: "run_experiment random_seed now coll g1 n_days True seed
     = run_experiment random_seed now coll g2 n_days True seed"
    by (simp add: run_experiment_def)
  have b: "fst (snd (run_experiment random_seed now
                    (fst (snd (run_experiment random_seed now coll g1 n_days True seed)))
                    g2 n_days True seed))
        = fst (snd (run_experiment random_seed now coll g1 n_days True seed))"
    if d: "distinct (map ident coll)"
  proof -
    let ?start = "midnight now - n_days * one_day"
    obtain sel where s: "\<forall>c d. map unset_fields c = map unset_fields coll \<longrightarrow>
        fst (snd (run_days True ?start (midnight now) c (random_seed seed) d))
          = map (setter sel) c"
      using run_days_setter[OF d, of ?start "midnight now" "random_seed seed"]
      by blast
    show ?thesis
    proof (cases "max_timedelta_days < \<bar>n_days\<bar> \<or> ?start < min_datetime \<or> max_datetime < ?start")
      case True
      then have "fst (snd (run_experiment random_seed now c g n_days True seed)) = c" for c g
        by (simp add: run_experiment_coll)
      then show ?thesis by simp
    next
      case False
      then have coll_of: "fst (snd (run_experiment random_seed now c g n_days True seed))
          = fst (snd (run_days True ?start (midnight now) c (random_seed seed) []))" for c g
        by (simp add: run_experiment_coll)
      have first: "fst (snd (run_experiment random_seed now coll g1 n_days True seed))
          = map (setter sel) coll"
        using s by (simp add: coll_of)
      have "map unset_fields (map (setter sel) coll) = map unset_fields coll"
        by (rule map_unset_setter)
      then have "fst (snd (run_experiment random_seed now (map (setter sel) coll) g2 n_days True seed))
          = map (setter sel) (map (setter sel) coll)"
        using s by (simp add: coll_of)
      then show ?thesis unfolding first by (simp add: setter_idem)
    qed
  qed
  show ?thesis using a b by blast
qed

theorem seeded_run_deterministic_witness:
  "distinct (map ident sample_day)
   \<and> run_experiment sample_seed 100000 sample_day (\<lambda>k. 0) 2 True 42
       = run_experiment sample_seed 100000 sample_day (\<lambda>k. k) 2 True 42
   \<and> fst (snd (run_experiment sample_seed 100000
                 (fst (snd (run_experiment sample_seed 100000 sample_day (\<lambda>k. 0) 2 True 42)))
                 (\<lambda>k. k) 2 True 42))
       = fst (snd (run_experiment sample_seed 100000 sample_day (\<lambda>k. 0) 2 True 42))"
proof -
  have d: "distinct (map ident sample_day)"
    by (simp add: sample_day_def)
  show ?thesis
    using seeded_run_deterministic[of sample_seed 100000 sample_day "\<lambda>k. 0" 2 42 "\<lambda>k. k"] d
    by blast
qed

text \<open>
  C8. For every collection, \<open>_calculate_experiment_stats\<close> returns a result, never an
  error: the totals and completed counts of both groups, for each group the rate
  \<open>completed / total\<close> when the total is positive and 0 when it is 0, and the difference
  of the treatment rate and the control rate. The division is only reached with a
  positive divisor.
\<close>

theorem stats_rates_safe:
  "\<exists>s. calculate_experiment_stats coll = Inr s
     \<and> total (control_group s) = count_documents coll (in_group control_label)
     \<and> completed (control_group s) = count_documents coll (in_group_complete control_label)
     \<and> total (treatment_group s) = count_documents coll (in_group treatment_label)
     \<and> completed (treatment_group s) = count_documents coll (in_group_complete treatment_label)
     \<and> completion_rate (control_group s) =
         (if total (control_group s) > 0
          then of_nat (completed (control_group s)) / of_nat (total (control_group s)) else 0)
     \<and> completion_rate (treatment_group s) =
         (if total (treatment_group s) > 0
          then of_nat (completed (treatment_group s)) / of_nat (total (treatment_group s)) else 0)
     \<and> difference s = completion_rate (treatment_group s) - completion_rate (control_group s)"
  unfolding calculate_experiment_stats_def py_truediv_def Let_def
  by (cases "count_documents coll (in_group control_label) = 0";
      cases "count_documents coll (in_group treatment_label) = 0") simp_all

text \<open>
  C7 (as the code has it). \<open>run_experiment\<close> does not check \<open>days\<close> and never fails
  with \<open>InvalidDateRange\<close>. For every \<open>days \<le> 0\<close> the loop over the days is not entered.
  When the dates are in range (the magnitude of \<open>days\<close> at most 999999999 and the start
  date, today minus \<open>days\<close>, within the range of \<open>datetime\<close>), the call returns normally:
  no daily result, \<open>total_assigned = 0\<close> and the statistics of the collection as it is.
  Otherwise the date arithmetic raises \<open>OverflowError\<close>. The collection is unchanged in
  both cases, and with \<open>assignment = True\<close> the generator has been seeded.
\<close>

theorem run_nonpositive_days:
  assumes "n_days \<le> 0"
  shows "\<exists>s. calculate_experiment_stats coll = Inr s \<and>
     run_experiment random_seed now coll g n_days assignment seed =
       (if dates_in_range now n_days
        then Inr \<lparr>days = n_days, total_assigned = 0, daily_results = [], statistics = s\<rparr>
        else Inl OverflowError,
        coll, if assignment then random_seed seed else g)"
proof -
  let ?start = "midnight now - n_days * one_day"
  have ge: "midnight now \<le> ?start"
    using assms by (simp add: one_day_def mult_le_0_iff)
  then have rd: "run_days assignment ?start (midnight now) coll g0 [] = (Inr [], coll, g0)" for g0
    by (simp add: run_days_done)
  have range: "dates_in_range now n_days =
      (\<not> max_timedelta_days < \<bar>n_days\<bar> \<and> \<not> (?start < min_datetime \<or> max_datetime < ?start))"
    using ge by (auto simp: dates_in_range_def start_date_of_def)
  obtain s where s: "calculate_experiment_stats coll = Inr s"
    using stats_Inr by blast
  have "run_experiment random_seed now coll g n_days assignment seed =
       (if dates_in_range now n_days
        then Inr \<lparr>days = n_days, total_assigned = 0, daily_results = [], statistics = s\<rparr>
        else Inl OverflowError,
        coll, if assignment then random_seed seed else g)"
    unfolding range using rd s by (simp add: run_experiment_def Let_def)
  then show ?thesis using s by blast
qed

theorem run_nonpositive_days_witness:
  "(0::int) \<le> 0 \<and> dates_in_range 100000 0 \<and> (- 3000000::int) \<le> 0
   \<and> \<not> dates_in_range 100000 (- 3000000)
   \<and> (\<exists>s. calculate_experiment_stats sample_day = Inr s \<and>
        run_experiment sample_seed 100000 sample_day (\<lambda>k. 0) 0 False 42 =
          (Inr \<lparr>days = 0, total_assigned = 0, daily_results = [], statistics = s\<rparr>,
           sample_day, \<lambda>k. 0))
   \<and> run_experiment sample_seed 100000 sample_day (\<lambda>k. 0) (- 3000000) False 42 =
        (Inl OverflowError, sample_day, \<lambda>k. 0)"
proof -
  have a: "dates_in_range 100000 0"
    by (simp add: dates_in_range_def start_date_of_def midnight_def one_day_def
        max_timedelta_days_def min_datetime_def max_datetime_def year_1000_def)
  have b: "\<not> dates_in_range 100000 (- 3000000)"
    by (simp add: dates_in_range_def start_date_of_def midnight_def one_day_def
        max_timedelta_days_def min_datetime_def max_datetime_def year_1000_def)
  have c: "\<exists>s. calculate_experiment_stats sample_day = Inr s \<and>
        run_experiment sample_seed 100000 sample_day (\<lambda>k. 0) 0 False 42 =
          (Inr \<lparr>days = 0, total_assigned = 0, daily_results = [], statistics = s\<rparr>,
           sample_day, \<lambda>k. 0)"
    using run_nonpositive_days[of 0 sample_day sample_seed 100000 "\<lambda>k. 0" False 42] a by simp
  have d: "run_experiment sample_seed 100000 sample_day (\<lambda>k. 0) (- 3000000) False 42 =
        (Inl OverflowError, sample_day, \<lambda>k. 0)"
    using run_nonpositive_days[of "- 3000000" sample_day sample_seed 100000 "\<lambda>k. 0" False 42] b
    by simp
  show ?thesis using a b c d by simp
qed

text \<open>
  The claim C7 as stated fails: with \<open>days = -1\<close> the call returns a normal result with
  no daily entry, not the error \<open>InvalidDateRange\<close>.
\<close>

theorem run_nonpositive_days_counterexample:
  "fst (run_experiment sample_seed 100000 sample_day (\<lambda>k. 0) (- 1) True 42) \<noteq> Inl InvalidDateRange
   \<and> fst (run_experiment sample_seed 100000 sample_day (\<lambda>k. 0) (- 1) True 42) =
     Inr \<lparr>days = - 1, total_assigned = 0, daily_results = [],
          statistics = \<lparr>control_group = \<lparr>total = 0, completed = 0, completion_rate = 0\<rparr>,
                        treatment_group = \<lparr>total = 0, completed = 0, completion_rate = 0\<rparr>,
                        difference = 0\<rparr>\<rparr>"
  by (simp add: run_experiment_def run_days_done midnight_def one_day_def Let_def sample_day_def
      max_timedelta_days_def min_datetime_def max_datetime_def
      calculate_experiment_stats_def count_documents_def in_group_def in_group_complete_def)

text \<open>
  C3. After \<open>reset_experiment\<close> no document of the experiment's collection should be in
  the experiment, and a second reset should modify nothing. The code resets the
  collections of the database named \<open>db_name\<close>, not the collection the experiment works
  on. For the experiment that \<open>StatsBuilder.run_experiment\<close> builds, whose collection is
  \<open>applicants\<close> of \<open>online_course\<close> while \<open>db_name\<close> is \<open>wqu-abtest\<close>, the reset
  reports no match and no modification, and the assigned document keeps
  \<open>inExperiment = True\<close> and its group, after the first reset and after the second.
\<close>

theorem reset_misses_experiment_collection:
  "experiment_collection (app_store [assigned_control]) app_experiment = [assigned_control]
   \<and> inExperiment assigned_control = Some True
   \<and> group assigned_control = Some control_label
   \<and> snd (reset_experiment (app_store [assigned_control]) app_experiment) = (0, 0)
   \<and> experiment_collection
         (fst (reset_experiment (app_store [assigned_control]) app_experiment)) app_experiment
       = [assigned_control]
   \<and> experiment_collection
         (fst (reset_experiment
                 (fst (reset_experiment (app_store [assigned_control]) app_experiment))
                 app_experiment)) app_experiment
       = [assigned_control]
   \<and> \<not> list_all not_in_experiment
         (experiment_collection
            (fst (reset_experiment (app_store [assigned_control]) app_experiment))
            app_experiment)"
proof -
  have h: "handle_db app_experiment \<noteq> db_name app_experiment"
    by (simp add: app_experiment_def)
  have c0: "experiment_collection (app_store [assigned_control]) app_experiment
      = [assigned_control]"
    by (simp add: experiment_collection_def app_store_def app_experiment_def get_coll_def
        dict_get_def)
  have f: "inExperiment assigned_control = Some True"
      "group assigned_control = Some control_label"
    by (simp_all add: assigned_control_def)
  have r: "snd (reset_experiment (app_store [assigned_control]) app_experiment) = (0, 0)"
    by (simp add: reset_experiment_def app_store_def app_experiment_def dict_get_def)
  have c1: "experiment_collection
         (fst (reset_experiment (app_store [assigned_control]) app_experiment)) app_experiment
       = [assigned_control]"
    using reset_other_database[OF h, of "app_store [assigned_control]"] c0 by simp
  have c2: "experiment_collection
         (fst (reset_experiment
                 (fst (reset_experiment (app_store [assigned_control]) app_experiment))
                 app_experiment)) app_experiment
       = [assigned_control]"
    using reset_other_database[OF h,
        of "fst (reset_experiment (app_store [assigned_control]) app_experiment)"] c1
    by simp
  have n: "\<not> list_all not_in_experiment [assigned_control]"
    by (simp add: not_in_experiment_def assigned_control_def)
  show ?thesis using c0 f r c1 c2 n by simp
qed

text \<open>
  C4 (as the code has it). The query of an assignment pass selects by creation date and
  quiz status only; the fields \<open>inExperiment\<close> and \<open>group\<close> of a document play no part
  in it. In a collection with distinct \<open>_id\<close>s, a pass over a date gives every document
  of the day's cohort \<open>inExperiment = True\<close> and the label of its place in the freshly
  shuffled cohort (control in the first half, treatment in the rest), whatever the
  document held before, and leaves every other document as it is.
\<close>

theorem assignment_pass_relabels:
  assumes "distinct (map ident coll)"
    and "assign_groups_for_date coll g start_date = (result, coll', g')"
    and "shuffled = fst (shuffle g (find_eligible coll start_date (start_date + one_day)))"
  shows "coll' = map (\<lambda>d. if eligible start_date (start_date + one_day) d
                       then set_fields (Some True)
                              (Some (if d \<in> set (take (length shuffled div 2) shuffled)
                                     then control_label else treatment_label)) d
                       else d) coll
       \<and> eligible start_date (start_date + one_day) (set_fields e grp d)
           = eligible start_date (start_date + one_day) d"
  using assign_pass_map[OF assms] by (simp add: eligible_set_fields)

theorem assignment_pass_relabels_witness:
  "distinct (map ident sample_pair)
   \<and> fst (snd (assign_groups_for_date sample_pair draws_one_then_zero 0)) =
       map (\<lambda>d. if eligible 0 (0 + one_day) d
                then set_fields (Some True)
                       (Some (if d \<in> set (take
                                  (length (fst (shuffle draws_one_then_zero
                                     (find_eligible sample_pair 0 (0 + one_day)))) div 2)
                                  (fst (shuffle draws_one_then_zero
                                     (find_eligible sample_pair 0 (0 + one_day)))))
                              then control_label else treatment_label)) d
                else d) sample_pair"
proof -
  have d: "distinct (map ident sample_pair)"
    by (simp add: sample_pair_def)
  have p: "p = (fst p, fst (snd p), snd (snd p))" for p :: "counts \<times> collection \<times> rng"
    by simp
  show ?thesis
    using assignment_pass_relabels[OF d p refl] d by blast
qed

text \<open>
  The claim C4 as stated fails: two passes over the same date without a reset, the
  generator drawing 1 and then 0. The first pass puts applicant 1 in the control group
  and applicant 2 in the treatment group; the second pass selects both again and swaps
  their groups.
\<close>

theorem reassignment_overwrites_counterexample:
  "(case assign_groups_for_date sample_pair draws_one_then_zero 0 of (r1, c1, g1) \<Rightarrow>
      case assign_groups_for_date c1 g1 0 of (r2, c2, g2) \<Rightarrow>
        (map ident c1, map group c1, map ident c2, map group c2))
   = ([1, 2], [Some control_label, Some treatment_label],
      [1, 2], [Some treatment_label, Some control_label])"
  by (simp add: sample_pair_def draws_one_then_zero_def assign_groups_for_date_def
      find_eligible_def eligible_def one_day_def shuffle_def randbelow_def set_fields_def Let_def)

text \<open>
  C5 (as the code has it). When at least one document in the experiment has a group and
  none of those documents has the status \<open>completed\<close>, \<open>get_contingency_table\<close> signals
  nothing: it returns the cross table of the real rows followed by synthetic rows with
  the status \<open>completed\<close>, one for each group in the order of first appearance and then
  copies of the first row until there are three. \<open>run_chi_square\<close> hands that table to
  the test when it has two rows and two columns, that is when the real rows have
  exactly two groups and one status, and fails with the \<open>ValueError\<close> of \<open>Table2x2\<close>
  otherwise. When no document in the experiment has a group, both fail with \<open>KeyError\<close>.
\<close>

theorem synthetic_rows_added:
  assumes "df = dropna (filter in_experiment coll)"
  shows "(\<not> (\<exists>d\<in>set coll. in_experiment d \<and> group d \<noteq> None) \<longrightarrow>
            get_contingency_table coll = Inl KeyError \<and> run_chi_square coll = Inl KeyError)
    \<and> ((\<exists>d\<in>set coll. in_experiment d \<and> group d \<noteq> None) \<and> ''completed'' \<notin> snd ` set df \<longrightarrow>
          get_contingency_table coll =
            Inr (crosstab_of (df @ map (\<lambda>group_type. (group_type, ''completed'')) (unique (map fst df))
                   @ replicate (3 - length (unique (map fst df))) (fst (hd df), ''completed'')))
        \<and> run_chi_square coll =
            (if length (remdups (map fst df)) = 2 \<and> length (remdups (map snd df)) = 1
             then Inr (ct_values (crosstab_of
                    (df @ map (\<lambda>group_type. (group_type, ''completed'')) (unique (map fst df))
                      @ replicate (3 - length (unique (map fst df))) (fst (hd df), ''completed''))))
             else Inl ValueError))"
proof -
  have k: "get_contingency_table coll = Inl KeyError \<and> run_chi_square coll = Inl KeyError"
    if "\<not> (\<exists>d\<in>set coll. in_experiment d \<and> group d \<noteq> None)"
    using contingency_key_error[OF that] by (simp add: run_chi_square_def)
  have t: "get_contingency_table coll =
            Inr (crosstab_of (df @ map (\<lambda>group_type. (group_type, ''completed'')) (unique (map fst df))
                   @ replicate (3 - length (unique (map fst df))) (fst (hd df), ''completed'')))
        \<and> run_chi_square coll =
            (if length (remdups (map fst df)) = 2 \<and> length (remdups (map snd df)) = 1
             then Inr (ct_values (crosstab_of
                    (df @ map (\<lambda>group_type. (group_type, ''completed'')) (unique (map fst df))
                      @ replicate (3 - length (unique (map fst df))) (fst (hd df), ''completed''))))
             else Inl ValueError)"
    if some: "\<exists>d\<in>set coll. in_experiment d \<and> group d \<noteq> None"
      and none: "''completed'' \<notin> snd ` set df"
    using contingency_synthetic[OF some none[unfolded assms]]
      chi_square_synthetic[OF some none[unfolded assms]]
    unfolding assms fabricated_def by simp
  show ?thesis using k t by blast
qed

theorem synthetic_rows_added_witness:
  "(\<exists>d\<in>set sample_assigned. in_experiment d \<and> group d \<noteq> None)
   \<and> ''completed'' \<notin> snd ` set (dropna (filter in_experiment sample_assigned))
   \<and> run_chi_square sample_assigned = Inr [[2, 1], [1, 1]]
   \<and> (\<exists>d\<in>set sample_with_complete. in_experiment d \<and> group d \<noteq> None)
   \<and> ''completed'' \<notin> snd ` set (dropna (filter in_experiment sample_with_complete))
   \<and> run_chi_square sample_with_complete = Inl ValueError
   \<and> \<not> (\<exists>d\<in>set sample_day. in_experiment d \<and> group d \<noteq> None)
   \<and> get_contingency_table sample_day = Inl KeyError
   \<and> run_chi_square sample_day = Inl KeyError"
proof -
  have a: "\<exists>d\<in>set sample_assigned. in_experiment d \<and> group d \<noteq> None"
    by (simp add: sample_assigned_def in_experiment_def)
  have b: "''completed'' \<notin> snd ` set (dropna (filter in_experiment sample_assigned))"
    by (simp add: sample_assigned_def in_experiment_def)
  have c: "\<exists>d\<in>set sample_with_complete. in_experiment d \<and> group d \<noteq> None"
    by (simp add: sample_with_complete_def in_experiment_def)
  have d: "''completed'' \<notin> snd ` set (dropna (filter in_experiment sample_with_complete))"
    by (simp add: sample_with_complete_def in_experiment_def)
  have e: "\<not> (\<exists>d\<in>set sample_day. in_experiment d \<and> group d \<noteq> None)"
    by (simp add: sample_day_def in_experiment_def)
  have shape1: "length (remdups (map fst (dropna (filter in_experiment sample_assigned)))) = 2
      \<and> length (remdups (map snd (dropna (filter in_experiment sample_assigned)))) = 1"
    by (simp add: sample_assigned_def in_experiment_def control_label_def treatment_label_def)
  have shape2: "length (remdups (map snd (dropna (filter in_experiment sample_with_complete)))) \<noteq> 1"
    by (simp add: sample_with_complete_def in_experiment_def)
  have values1: "ct_values (crosstab_of
      (dropna (filter in_experiment sample_assigned)
        @ map (\<lambda>group_type. (group_type, ''completed''))
            (unique (map fst (dropna (filter in_experiment sample_assigned))))
        @ replicate (3 - length (unique (map fst (dropna (filter in_experiment sample_assigned)))))
            (fst (hd (dropna (filter in_experiment sample_assigned))), ''completed'')))
      = [[2, 1], [1, 1]]"
    by (simp add: sample_assigned_def in_experiment_def crosstab_of_def control_label_def
        treatment_label_def Let_def numeral_3_eq_3)
  have w1: "run_chi_square sample_assigned = Inr [[2, 1], [1, 1]]"
    using synthetic_rows_added[OF refl, of sample_assigned] a b shape1 values1 by simp
  have w2: "run_chi_square sample_with_complete = Inl ValueError"
    using synthetic_rows_added[OF refl, of sample_with_complete] c d shape2 by simp
  have w3: "get_contingency_table sample_day = Inl KeyError
      \<and> run_chi_square sample_day = Inl KeyError"
    using synthetic_rows_added[OF refl, of sample_day] e by blast
  show ?thesis using a b c d e w1 w2 w3 by blast
qed

text \<open>
  The claim C5 as stated fails: two assigned applicants, neither with a completed quiz.
  The table is returned without any error or condition, it has a column \<open>completed\<close>
  holding three rows that no document accounts for, and the test is run on it.
\<close>

theorem fabricated_table_counterexample:
  "filter (\<lambda>d. admissionsQuiz d = ''completed'') sample_assigned = []
   \<and> get_contingency_table sample_assigned =
       Inr \<lparr>ct_index = [control_label, treatment_label],
            ct_columns = [''completed'', ''incomplete''],
            ct_values = [[2, 1], [1, 1]]\<rparr>
   \<and> run_chi_square sample_assigned = Inr [[2, 1], [1, 1]]"
  by (simp add: run_chi_square_def get_contingency_table_def sample_assigned_def in_experiment_def
      synthetic_rows_def pad_rows_eq crosstab_of_def control_label_def treatment_label_def Let_def
      numeral_3_eq_3)

text \<open>
  C9. The assignment and the statistics use the statuses \<open>complete\<close> and \<open>incomplete\<close>,
  and the table builder looks for \<open>completed\<close>. So whenever every document has one of the
  two statuses and at least one document is assigned (in the experiment, with a group),
  the branch that adds synthetic rows is taken, also when documents with the status
  \<open>complete\<close> are there: the table is built from the real rows, none of which has the
  status \<open>completed\<close>, and at least three added rows that are copies of real rows with
  the status \<open>completed\<close>; it has a column \<open>completed\<close>.
\<close>

theorem completed_column_always_fabricated:
  assumes some: "\<exists>d\<in>set coll. in_experiment d \<and> group d \<noteq> None"
    and statuses: "\<forall>d\<in>set coll. admissionsQuiz d = ''complete'' \<or> admissionsQuiz d = ''incomplete''"
    and df: "df = dropna (filter in_experiment coll)"
  shows "\<exists>new_rows. get_contingency_table coll = Inr (crosstab_of (df @ new_rows))
     \<and> 3 \<le> length new_rows
     \<and> (\<forall>r\<in>set new_rows. snd r = ''completed'' \<and> fst r \<in> fst ` set df)
     \<and> ''completed'' \<notin> snd ` set df
     \<and> ''completed'' \<in> set (ct_columns (crosstab_of (df @ new_rows)))"
proof -
  have "snd ` set df \<subseteq> admissionsQuiz ` set (filter in_experiment coll)"
    unfolding df by (rule dropna_status)
  moreover have "admissionsQuiz ` set (filter in_experiment coll) \<subseteq> {''complete'', ''incomplete''}"
    using statuses by fastforce
  ultimately have "snd ` set df \<subseteq> {''complete'', ''incomplete''}" by (rule subset_trans)
  then have none: "''completed'' \<notin> snd ` set df" by auto
  have ne: "df \<noteq> []" unfolding df using some by (auto simp: dropna_nonempty)
  have tab: "get_contingency_table coll = Inr (crosstab_of (df @ fabricated df))"
    using contingency_synthetic[OF some none[unfolded df]] unfolding df .
  have l: "3 \<le> length (fabricated df)" by (rule length_fabricated)
  have s: "\<forall>r\<in>set (fabricated df). snd r = ''completed'' \<and> fst r \<in> fst ` set df"
    using set_fabricated[OF ne] by blast
  have "fabricated df \<noteq> []" using l by auto
  then obtain r where r: "r \<in> set (fabricated df)" by (meson last_in_set)
  then have "snd r = ''completed''" using s by blast
  then have "''completed'' \<in> snd ` set (df @ fabricated df)" using r by force
  then have col: "''completed'' \<in> set (ct_columns (crosstab_of (df @ fabricated df)))"
    by (simp add: crosstab_of_def Let_def image_Un)
  show ?thesis using tab l s none col by blast
qed

theorem completed_column_always_fabricated_witness:
  "(\<exists>d\<in>set sample_with_complete. in_experiment d \<and> group d \<noteq> None)
   \<and> list_all (\<lambda>d. admissionsQuiz d = ''complete'' \<or> admissionsQuiz d = ''incomplete'')
        sample_with_complete
   \<and> (\<exists>d\<in>set sample_with_complete. in_experiment d \<and> admissionsQuiz d = ''complete'')
   \<and> (\<exists>new_rows.
        get_contingency_table sample_with_complete =
          Inr (crosstab_of (dropna (filter in_experiment sample_with_complete) @ new_rows))
        \<and> 3 \<le> length new_rows
        \<and> ''completed'' \<in> set (ct_columns
             (crosstab_of (dropna (filter in_experiment sample_with_complete) @ new_rows))))"
proof -
  have a: "\<exists>d\<in>set sample_with_complete. in_experiment d \<and> group d \<noteq> None"
    by (simp add: sample_with_complete_def in_experiment_def)
  have b: "\<forall>d\<in>set sample_with_complete.
      admissionsQuiz d = ''complete'' \<or> admissionsQuiz d = ''incomplete''"
    by (simp add: sample_with_complete_def)
  have c: "\<exists>d\<in>set sample_with_complete. in_experiment d \<and> admissionsQuiz d = ''complete''"
    by (simp add: sample_with_complete_def in_experiment_def)
  have d: "list_all (\<lambda>d. admissionsQuiz d = ''complete'' \<or> admissionsQuiz d = ''incomplete'')
      sample_with_complete"
    using b by (simp add: list_all_iff)
  show ?thesis
    using completed_column_always_fabricated[OF a b refl] a c d by blast
qed

text \<open>
  C6 (as the code has it). \<open>calculate_cdf_pct\<close> has no check of the history and never
  signals \<open>InsufficientHistory\<close>. With no day of incomplete quizzes the call fails with
  the \<open>KeyError\<close> of the empty frame, and with exactly one day with the
  \<open>AttributeError\<close> of the scalar that \<open>squeeze\<close> returns. With two days or more, and
  arguments \<open>n_obs\<close> and \<open>days\<close> that fit 64 bits, it returns a value without any error;
  when all daily counts are equal, so that the standard deviation is 0, that value is
  NaN. The only other errors are the \<open>TypeError\<close> and \<open>OverflowError\<close> of the
  libraries on larger arguments.
\<close>

theorem cdf_pct_no_history_check:
  assumes "cs = daily_incomplete_counts coll"
  shows "calculate_cdf_pct coll n_obs n_days \<noteq> Inl InsufficientHistory
    \<and> (cs = [] \<longrightarrow> calculate_cdf_pct coll n_obs n_days = Inl KeyError)
    \<and> (length cs = 1 \<longrightarrow> calculate_cdf_pct coll n_obs n_days = Inl AttributeError)
    \<and> (2 \<le> length cs \<and> fits_64 n_obs \<and> fits_64 n_days \<longrightarrow>
          (\<exists>pct. calculate_cdf_pct coll n_obs n_days = Inr pct))
    \<and> (2 \<le> length cs \<and> fits_64 n_obs \<and> fits_64 n_days \<and> (\<forall>c\<in>set cs. c = hd cs) \<longrightarrow>
          series_std cs = Fin 0 \<and> calculate_cdf_pct coll n_obs n_days = Inr NaN)
    \<and> (\<forall>e. calculate_cdf_pct coll n_obs n_days = Inl e \<longrightarrow>
          e = KeyError \<or> e = AttributeError \<or> e = OverflowError \<or> e = TypeError)"
proof -
  have c0: "calculate_cdf_pct coll n_obs n_days = Inl KeyError" if "cs = []"
  proof -
    have "daily_incomplete_counts coll = []" using that assms by simp
    then show ?thesis by (simp add: calculate_cdf_pct_def get_no_quiz_per_day_def)
  qed
  have c1: "calculate_cdf_pct coll n_obs n_days = Inl AttributeError" if len1: "length cs = 1"
  proof -
    obtain c where "cs = [c]" using len1 by (cases cs) auto
    then have "daily_incomplete_counts coll = [c]" using assms by simp
    then show ?thesis by (simp add: calculate_cdf_pct_def get_no_quiz_per_day_def)
  qed
  have c2: "\<exists>pct. calculate_cdf_pct coll n_obs n_days = Inr pct"
    if "2 \<le> length cs" and fo: "fits_64 n_obs" and fd: "fits_64 n_days"
  proof -
    obtain r where r: "np_sqrt n_days = Inr r" using np_sqrt_fits[OF fd] by blast
    show ?thesis
      using series_of_counts[OF that(1) assms[symmetric]] r fo
      by (simp add: calculate_cdf_pct_def norm_cdf_call_def Let_def fits_64_float[OF fd]
          fits_64_float[OF fo])
  qed
  have c3: "series_std cs = Fin 0 \<and> calculate_cdf_pct coll n_obs n_days = Inr NaN"
    if "2 \<le> length cs" and fo: "fits_64 n_obs" and fd: "fits_64 n_days"
      and "\<forall>c\<in>set cs. c = hd cs"
  proof -
    have s: "series_std cs = Fin 0" using that(1,4) by (rule series_std_const)
    obtain r where r: "np_sqrt n_days = Inr r" using np_sqrt_fits[OF fd] by blast
    show ?thesis
      using series_of_counts[OF that(1) assms[symmetric]] s r fo
      by (simp add: calculate_cdf_pct_def norm_cdf_call_def Let_def fits_64_float[OF fd]
          fits_64_float[OF fo] norm_cdf_zero_scale)
  qed
  have c4: "e = KeyError \<or> e = AttributeError \<or> e = OverflowError \<or> e = TypeError"
    if "calculate_cdf_pct coll n_obs n_days = Inl e" for e
    using that by (rule cdf_pct_errors)
  then have c: "calculate_cdf_pct coll n_obs n_days \<noteq> Inl InsufficientHistory"
    by fastforce
  show ?thesis using c c0 c1 c2 c3 c4 by blast
qed

theorem cdf_pct_no_history_check_witness:
  "fits_64 10 \<and> fits_64 3
   \<and> daily_incomplete_counts [] = []
   \<and> calculate_cdf_pct [] 10 3 = Inl KeyError
   \<and> daily_incomplete_counts sample_pair = [2]
   \<and> calculate_cdf_pct sample_pair 10 3 = Inl AttributeError
   \<and> daily_incomplete_counts sample_two_days = [1, 1]
   \<and> series_std [1, 1] = Fin 0
   \<and> calculate_cdf_pct sample_two_days 10 3 = Inr NaN"
proof -
  have e: "[] = daily_incomplete_counts []"
    by (simp add: daily_incomplete_counts_def)
  have o: "[2] = daily_incomplete_counts sample_pair"
    by (simp add: daily_incomplete_counts_def sample_pair_def day_of_def one_day_def Let_def)
  have t: "[1, 1] = daily_incomplete_counts sample_two_days"
    by (simp add: sample_two_days_counts)
  have f: "fits_64 10" "fits_64 3"
    by (simp_all add: fits_64_def)
  have w0: "calculate_cdf_pct [] 10 3 = Inl KeyError"
    using cdf_pct_no_history_check[OF e, of 10 3] by simp
  have w1: "calculate_cdf_pct sample_pair 10 3 = Inl AttributeError"
    using cdf_pct_no_history_check[OF o, of 10 3] by simp
  have w2: "series_std [1, 1] = Fin 0 \<and> calculate_cdf_pct sample_two_days 10 3 = Inr NaN"
    using cdf_pct_no_history_check[OF t, of 10 3] f by simp
  show ?thesis
    using w0 w1 w2 f e[symmetric] o[symmetric] t[symmetric] by simp
qed

text \<open>
  The claim C6 as stated fails: one incomplete-quiz applicant on each of two days gives
  a history with standard deviation 0, and the call returns NaN, not an error.
\<close>

theorem cdf_pct_nan_counterexample:
  "series_std (daily_incomplete_counts sample_two_days) = Fin 0
   \<and> calculate_cdf_pct sample_two_days 10 3 = Inr NaN
   \<and> calculate_cdf_pct sample_two_days 10 3 \<noteq> Inl InsufficientHistory"
  by (simp add: calculate_cdf_pct_def get_no_quiz_per_day_def sample_two_days_counts
      series_std_def series_mean_def np_sqrt_def int_to_float_def fits_64_def norm_cdf_call_def
      Let_def)

end
